theory Spec2Isabelle
  imports Main "HOL-Library.AList"
begin

section \<open>Shared vocabulary\<close>

text \<open>
  Go strings and byte slices are byte sequences. A function of another package that the
  two source files call is a field of an environment record (\<open>config_env\<close>,
  \<open>remote_env\<close>); an error such a function returns is an \<open>ext_error\<close>, a value
  these files never create themselves. A Go function that may panic has an \<open>outcome\<close>.
\<close>

type_synonym bytes = string

datatype ext_error = ExtError string

datatype 'a outcome = Returns 'a | Panics string

datatype log_level = Debug | Info | Warning

section \<open>multiroot/config/config.go: the configuration file parser\<close>

subsection \<open>The five regular expressions\<close>

text \<open>
  Go's \<open>regexp\<close> classes are ASCII: \<open>\s\<close> is tab, newline, form feed, carriage return
  and space; \<open>\w\<close> is \<open>[0-9A-Za-z_]\<close>; \<open>.\<close> is every character but newline. The
  bracket \<open>["']\<close> is \<open>is_quote\<close>.
\<close>

definition is_space :: "char \<Rightarrow> bool" where
  "is_space c = (c \<in> set [CHR 0x09, CHR 0x0A, CHR 0x0C, CHR 0x0D, CHR 0x20])"

definition is_word :: "char \<Rightarrow> bool" where
  "is_word c = (c \<in> set ''0123456789ABCDEFGHIJKLMNOPQRSTUVWXYZ_abcdefghijklmnopqrstuvwxyz'')"

definition is_dot :: "char \<Rightarrow> bool" where
  "is_dot c = (c \<noteq> CHR 0x0A)"

definition is_quote :: "char \<Rightarrow> bool" where
  "is_quote c = (c \<in> set [CHR 0x22, CHR 0x27])"

definition is_chr :: "char \<Rightarrow> char \<Rightarrow> bool" where
  "is_chr a c = (c = a)"

text \<open>
  All five patterns are a sequence of atoms between \<open>^\<close> and \<open>$\<close>: one character of a
  class, a greedy \<open>*\<close> or \<open>+\<close> of a class, or such an atom in a capturing group. Neither
  the multi-line nor the single-line flag is set, so \<open>^\<close> and \<open>$\<close> are the two ends of
  the text.
\<close>

datatype atom = One "char \<Rightarrow> bool" | Star "char \<Rightarrow> bool" | Plus "char \<Rightarrow> bool" | Group atom

text \<open>The lengths an atom may consume at the head of \<open>s\<close>, the preferred (longest) first.\<close>

fun lens :: "atom \<Rightarrow> string \<Rightarrow> nat list" where
  "lens (One P) s = (case s of [] \<Rightarrow> [] | c # _ \<Rightarrow> if P c then [1] else [])"
| "lens (Star P) s = rev [0 ..< Suc (length (takeWhile P s))]"
| "lens (Plus P) s = rev [1 ..< Suc (length (takeWhile P s))]"
| "lens (Group a) s = lens a s"

fun caps :: "atom \<Rightarrow> string \<Rightarrow> string list \<Rightarrow> string list" where
  "caps (Group a) t gs = t # gs"
| "caps a t gs = gs"

fun first_some :: "'a option list \<Rightarrow> 'a option" where
  "first_some [] = None"
| "first_some (Some x # xs) = Some x"
| "first_some (None # xs) = first_some xs"

text \<open>
  The match a backtracking search finds first, which is the one Go's \<open>regexp\<close> returns
  (leftmost-first): \<open>Some\<close> of the texts of the capturing groups, in order.
\<close>

fun match :: "atom list \<Rightarrow> string \<Rightarrow> string list option" where
  "match [] s = (if s = [] then Some [] else None)"
| "match (a # r) s =
     first_some (map (\<lambda>n. map_option (caps a (take n s)) (match r (drop n s))) (lens a s))"

definition MatchString :: "atom list \<Rightarrow> string \<Rightarrow> bool" where
  "MatchString re s = (match re s \<noteq> None)"

text \<open>
  \<open>re.ReplaceAllString(src, "$k")\<close> for a pattern anchored at both ends: the text of
  group \<open>k\<close> when the pattern matches (a group that does not exist expands to the empty
  string), and \<open>src\<close> unchanged when it does not.
\<close>

definition ReplaceAllString :: "atom list \<Rightarrow> string \<Rightarrow> nat \<Rightarrow> string" where
  "ReplaceAllString re src k =
     (case match re src of
        None \<Rightarrow> src
      | Some gs \<Rightarrow> if 1 \<le> k \<and> k \<le> length gs then gs ! (k - 1) else [])"

definition configSection :: "atom list" where
  "configSection =
     [Star is_space, One (is_chr CHR ''[''), Star is_space, Group (Plus is_word),
      Star is_space, One (is_chr CHR '']''), Star is_space]"

definition quotedConfigLine :: "atom list" where
  "quotedConfigLine =
     [Star is_space, Group (Plus is_word), Star is_space, One (is_chr CHR ''=''),
      Star is_space, One is_quote, Group (Star is_dot), One is_quote, Star is_space]"

definition configLine :: "atom list" where
  "configLine =
     [Star is_space, Group (Plus is_word), Star is_space, One (is_chr CHR ''=''),
      Star is_space, Group (Star is_dot), Star is_space]"

definition commentLine :: "atom list" where
  "commentLine = [One (is_chr CHR ''#''), Star is_dot]"

definition blankLine :: "atom list" where
  "blankLine = [Star is_space]"

definition defaultSection :: string where
  "defaultSection = ''default''"

subsection \<open>Errors of the package\<close>

datatype config_error =
    ErrMissingPrivateKey
  | ErrMissingCertificatePath
  | ErrMissingConfigPath
  | ErrInvalidConfig
  | ErrUnsupportedScheme
  | ErrorsNew string
  | FmtErrorf string
  | External ext_error

text \<open>The text of each error value (its \<open>Error()\<close>), as the source spells it.\<close>

fun Error_text :: "config_error \<Rightarrow> string" where
  "Error_text ErrMissingPrivateKey = ''config: root is missing private key spec''"
| "Error_text ErrMissingCertificatePath = ''config: root is missing certificate path''"
| "Error_text ErrMissingConfigPath = ''config: root is missing configuration file path''"
| "Error_text ErrInvalidConfig = ''config: invalid configuration''"
| "Error_text ErrUnsupportedScheme = ''config: unsupported private key scheme''"
| "Error_text (ErrorsNew m) = m"
| "Error_text (FmtErrorf m) = m"
| "Error_text (External (ExtError m)) = m"

subsection \<open>ParseToRawMap\<close>

text \<open>
  A \<open>RawMap\<close> is a Go map from section names to maps from keys to values. The outer map
  is an association list with one entry per key, so that \<open>Parse\<close> can range over it;
  the order of its entries means nothing.
\<close>

type_synonym RawSection = "string \<rightharpoonup> string"
type_synonym RawMap = "(string \<times> RawSection) list"

definition SectionInConfig :: "RawMap \<Rightarrow> string \<Rightarrow> bool" where
  "SectionInConfig c section = list_ex (\<lambda>s. section = s) (map fst c)"

text \<open>
  \<open>bufio.Scanner\<close> with its default split function \<open>ScanLines\<close>: the text is cut at
  every newline, a last line without a newline counts when it is not empty, and one
  carriage return at the end of a line is dropped. The scanner's buffer holds
  \<open>MaxScanTokenSize\<close> bytes: at a line that does not fit together with its newline,
  \<open>Scan\<close> returns false, and \<open>ParseToRawMap\<close> never asks the scanner for its error.
\<close>

definition MaxScanTokenSize :: nat where
  "MaxScanTokenSize = 64 * 1024"

fun splitLines :: "string \<Rightarrow> string list" where
  "splitLines [] = []"
| "splitLines (c # cs) =
     (if c = CHR 0x0A then [] # splitLines cs
      else (case splitLines cs of [] \<Rightarrow> [[c]] | l # ls \<Rightarrow> (c # l) # ls))"

definition dropCR :: "string \<Rightarrow> string" where
  "dropCR data = (if data \<noteq> [] \<and> last data = CHR 0x0D then butlast data else data)"

definition scanner_lines :: "string \<Rightarrow> string list" where
  "scanner_lines text =
     map dropCR (takeWhile (\<lambda>l. length l < MaxScanTokenSize) (splitLines text))"

text \<open>
  Lines 72 to 75 and 82 to 83: the pattern a key/value line is read with, and the key
  and the value it yields.
\<close>

definition line_regex :: "string \<Rightarrow> atom list" where
  "line_regex line = (if MatchString quotedConfigLine line then quotedConfigLine else configLine)"

definition line_key :: "string \<Rightarrow> string" where
  "line_key line = ReplaceAllString (line_regex line) line 1"

definition line_val :: "string \<Rightarrow> string" where
  "line_val line = ReplaceAllString (line_regex line) line 2"

text \<open>
  The loop of \<open>ParseToRawMap\<close> over the scanner's lines, with the map built so far and
  \<open>currentSection\<close>. It returns the map together with the error, as the source does. An
  assignment \<open>cfg[currentSection][key] = val\<close> into a section that is not in the map
  would write to a nil map, which panics in Go.
\<close>

fun parse_lines :: "RawMap \<Rightarrow> string \<Rightarrow> string list \<Rightarrow> (RawMap \<times> config_error option) outcome" where
  "parse_lines cfg currentSection [] = Returns (cfg, None)"
| "parse_lines cfg currentSection (line # rest) =
     (if MatchString commentLine line then parse_lines cfg currentSection rest
      else if MatchString blankLine line then parse_lines cfg currentSection rest
      else if MatchString configSection line then
        (let section = ReplaceAllString configSection line 1;
             cfg1 = (if \<not> SectionInConfig cfg section
                     then AList.update section Map.empty cfg else cfg)
         in parse_lines cfg1 section rest)
      else if MatchString configLine line then
        (let current1 = (if currentSection = [] then defaultSection else currentSection);
             cfg1 = (if currentSection = [] \<and> \<not> SectionInConfig cfg current1
                     then AList.update current1 Map.empty cfg else cfg);
             key = line_key line;
             val = line_val line
         in case map_of cfg1 current1 of
              None \<Rightarrow> Panics ''assignment to entry in nil map''
            | Some entries \<Rightarrow>
                parse_lines (AList.update current1 (entries(key \<mapsto> val)) cfg1) current1 rest)
      else Returns (cfg, Some (FmtErrorf ''invalid config file'')))"

subsection \<open>What the package imports\<close>

text \<open>
  Opaque values of other packages are handles. A \<open>url.URL\<close>, a \<open>pem.Block\<close> and an
  \<open>x509.Certificate\<close> are records of the fields the two files read. The \<open>Subject\<close>
  of a certificate is kept as the text its \<open>String\<close> method prints, and \<open>NotAfter\<close>
  as a number.
\<close>

datatype crypto_Signer = PrivateKeyHandle nat
datatype crypto_PublicKey = PublicKeyHandle nat
datatype config_Signing = SigningHandle nat
datatype sqlx_DB = DBHandle nat
datatype net_IPNet = IPNet string
datatype ro_client = RemoteServerHandle nat

record URL =
  Scheme :: string
  Host :: string
  Path :: string

record pem_Block =
  Bytes :: bytes

record x509_Certificate =
  SerialNumber :: int
  Subject :: string
  AuthorityKeyId :: bytes
  NotAfter :: int
  PublicKey :: crypto_PublicKey

record DecryptRequest =
  Name :: string
  Password :: string
  Data :: bytes

text \<open>
  The functions of other packages that \<open>config.go\<close> calls. One with a Go result
  \<open>(T, error)\<close> whose error the source checks returns \<open>ext_error + T\<close>.
  \<open>pem_Decode\<close> is the first result of \<open>pem.Decode\<close>, a pointer that is nil
  (\<open>None\<close>) when the data holds no PEM block. \<open>os_Open\<close> gives the text the scanner
  reads from the opened file. \<open>range_RawMap\<close> is the order in which a \<open>range\<close> loop
  visits the entries of a map, which Go leaves open.
\<close>

record config_env =
  os_Open :: "string \<Rightarrow> ext_error + string"
  os_ReadFile :: "string \<Rightarrow> ext_error + bytes"
  url_Parse :: "string \<Rightarrow> ext_error + URL"
  filepath_Join :: "string \<Rightarrow> string \<Rightarrow> string"
  ParsePrivateKeyPEM :: "bytes \<Rightarrow> ext_error + crypto_Signer"
  ParsePrivateKeyDER :: "bytes \<Rightarrow> ext_error + crypto_Signer"
  NewRemoteServer :: "string \<Rightarrow> string \<Rightarrow> ext_error + ro_client"
  DecryptIntoData :: "ro_client \<Rightarrow> DecryptRequest \<Rightarrow> ext_error + bytes"
  pem_Decode :: "bytes \<Rightarrow> pem_Block option"
  x509_ParseCertificate :: "bytes \<Rightarrow> ext_error + x509_Certificate"
  pkcs11key_New :: "string \<Rightarrow> string \<Rightarrow> string \<Rightarrow> crypto_PublicKey \<Rightarrow> ext_error + crypto_Signer"
  ParseCertificatePEM :: "bytes \<Rightarrow> ext_error + x509_Certificate"
  config_LoadFile :: "string \<Rightarrow> ext_error + config_Signing option"
  strings_TrimSpace :: "string \<Rightarrow> string"
  net_ParseCIDR :: "string \<Rightarrow> ext_error + net_IPNet"
  DBFromConfig :: "string \<Rightarrow> ext_error + sqlx_DB"
  range_RawMap :: "RawMap \<Rightarrow> RawMap"

text \<open>
  What a call does besides returning: the log lines it writes (with the arguments of the
  logging call) and the calls it makes to the file system, the key parsers, the
  decryption service, the hardware token and the database, in order.
\<close>

datatype config_event =
    Log log_level "string list"
  | Logf log_level string "string list"
  | Call_ReadFile string
  | Call_ParsePrivateKeyPEM bytes
  | Call_ParsePrivateKeyDER bytes
  | Call_NewRemoteServer string string
  | Call_DecryptIntoData ro_client DecryptRequest
  | Call_pkcs11key_New string string string crypto_PublicKey
  | Call_LoadFile string
  | Call_DBFromConfig string

type_synonym 'a config_io = "config_event list \<times> 'a outcome"

definition emit :: "config_event list \<Rightarrow> 'a config_io \<Rightarrow> 'a config_io" where
  "emit es m = (es @ fst m, snd m)"

definition ret :: "'a \<Rightarrow> 'a config_io" where
  "ret x = ([], Returns x)"

text \<open>\<open>cfg[k]\<close> in its one-result form: the empty string for a key that is absent.\<close>

definition index_map :: "RawSection \<Rightarrow> string \<Rightarrow> string" where
  "index_map cfg k = (case cfg k of None \<Rightarrow> [] | Some v \<Rightarrow> v)"

subsection \<open>parsePrivateKeySpec\<close>

text \<open>
  The PEM-then-DER parse that ends the \<open>file\<close> case (lines 192 to 203) and, with the
  same statements, the \<open>rofile\<close> case (lines 247 to 259).
\<close>

definition parse_pem_then_der :: "config_env \<Rightarrow> bytes \<Rightarrow> (config_error + crypto_Signer) config_io" where
  "parse_pem_then_der env inp =
     emit [Log Debug [''attempting to load PEM-encoded private key''],
           Call_ParsePrivateKeyPEM inp]
       (case ParsePrivateKeyPEM env inp of
          Inr priv \<Rightarrow> emit [Log Debug [''loaded private key'']] (ret (Inr priv))
        | Inl _ \<Rightarrow>
            emit [Log Debug [''file is not a PEM-encoded private key''],
                  Log Debug [''attempting to load DER-encoded private key''],
                  Call_ParsePrivateKeyDER inp]
              (case ParsePrivateKeyDER env inp of
                 Inl err \<Rightarrow> ret (Inl (External err))
               | Inr priv \<Rightarrow> emit [Log Debug [''loaded private key'']] (ret (Inr priv))))"

definition key_from_file :: "config_env \<Rightarrow> URL \<Rightarrow> (config_error + crypto_Signer) config_io" where
  "key_from_file env specURL =
     emit [Log Debug [''loading private key file'', Path specURL]]
       (let path = filepath_Join env (Host specURL) (Path specURL) in
        emit [Call_ReadFile path]
          (case os_ReadFile env path of
             Inl err \<Rightarrow> ret (Inl (External err))
           | Inr inp \<Rightarrow> parse_pem_then_der env inp))"

definition key_from_rofile ::
  "config_env \<Rightarrow> URL \<Rightarrow> RawSection \<Rightarrow> (config_error + crypto_Signer) config_io" where
  "key_from_rofile env specURL cfg =
     emit [Log Warning [''Red October support is currently experimental'']]
       (let path = filepath_Join env (Host specURL) (Path specURL) in
        emit [Call_ReadFile path]
          (case os_ReadFile env path of
             Inl err \<Rightarrow> ret (Inl (External err))
           | Inr inp \<Rightarrow>
               (let roServer = index_map cfg ''ro_server'' in
                if roServer = [] then ret (Inl (ErrorsNew ''config: no RedOctober server available''))
                else
                  (let roCAPath = index_map cfg ''ro_ca'';
                       roUser = index_map cfg ''ro_user'' in
                   if roUser = [] then ret (Inl (ErrorsNew ''config: no RedOctober user available''))
                   else
                     (let roPass = index_map cfg ''ro_pass'' in
                      if roPass = []
                      then ret (Inl (ErrorsNew ''config: no RedOctober passphrase available''))
                      else
                        emit [Log Debug [''decrypting key via RedOctober Server''],
                              Call_NewRemoteServer roServer roCAPath]
                          (case NewRemoteServer env roServer roCAPath of
                             Inl err \<Rightarrow> ret (Inl (External err))
                           | Inr roClient \<Rightarrow>
                               (let req = \<lparr>Name = roUser, Password = roPass, Data = inp\<rparr> in
                                emit [Call_DecryptIntoData roClient req]
                                  (case DecryptIntoData env roClient req of
                                     Inl err \<Rightarrow> ret (Inl (External err))
                                   | Inr plain \<Rightarrow> parse_pem_then_der env plain))))))))"

text \<open>
  The \<open>pkcs11\<close> case. \<open>b, _ := pem.Decode(p)\<close> is followed by \<open>b.Bytes\<close> with no
  check of \<open>b\<close>: on a nil block the field access panics.
\<close>

definition key_from_pkcs11 :: "config_env \<Rightarrow> RawSection \<Rightarrow> (config_error + crypto_Signer) config_io" where
  "key_from_pkcs11 env cfg =
     (let module = index_map cfg ''module'' in
      if module = [] then ret (Inl (ErrorsNew ''config: PKCS11 module path must be set (module)''))
      else
        (let tokenLabel = index_map cfg ''token_label'' in
         if tokenLabel = []
         then ret (Inl (ErrorsNew ''config: PKCS11 token label must be set (token_label)''))
         else
           (let pin = index_map cfg ''pin'' in
            emit (if pin = []
                  then [Logf Info ''PKCS11 PIN for token %s is not specified in config; please enter it on PIN pad if available'' [tokenLabel]]
                  else [])
              (let certificate = index_map cfg ''certificate'' in
               if certificate = []
               then ret (Inl (ErrorsNew ''config: PKCS11 public key path must be set (certificate)''))
               else
                 emit [Call_ReadFile certificate]
                   (case os_ReadFile env certificate of
                      Inl err \<Rightarrow> ret (Inl (External err))
                    | Inr p \<Rightarrow>
                        (case pem_Decode env p of
                           None \<Rightarrow> ([], Panics ''invalid memory address or nil pointer dereference'')
                         | Some b \<Rightarrow>
                             (case x509_ParseCertificate env (Bytes b) of
                                Inl err \<Rightarrow> ret (Inl (External err))
                              | Inr cert \<Rightarrow>
                                  emit [Call_pkcs11key_New module tokenLabel pin (PublicKey cert)]
                                    (case pkcs11key_New env module tokenLabel pin (PublicKey cert) of
                                       Inl err \<Rightarrow> ret (Inl (External err))
                                     | Inr priv \<Rightarrow>
                                         emit [Log Debug [''pkcs11 communication with token '' @ tokenLabel @ '' initialized successfully'']]
                                           (ret (Inr priv))))))))))"

definition parsePrivateKeySpec ::
  "config_env \<Rightarrow> string \<Rightarrow> RawSection \<Rightarrow> (config_error + crypto_Signer) config_io" where
  "parsePrivateKeySpec env spec cfg =
     (case url_Parse env spec of
        Inl err \<Rightarrow> ret (Inl (External err))
      | Inr specURL \<Rightarrow>
          if Scheme specURL = ''file'' then key_from_file env specURL
          else if Scheme specURL = ''rofile'' then key_from_rofile env specURL cfg
          else if Scheme specURL = ''pkcs11'' then key_from_pkcs11 env cfg
          else ret (Inl ErrUnsupportedScheme))"

subsection \<open>parseACL, LoadRoot and Parse\<close>

text \<open>
  \<open>x, err := f(); if err != nil { return nil, err }\<close>: a panic or an error of the
  first call ends the caller with it; otherwise the caller goes on with the value.
\<close>

definition and_then ::
  "(config_error + 'a) config_io \<Rightarrow> ('a \<Rightarrow> (config_error + 'b) config_io)
     \<Rightarrow> (config_error + 'b) config_io" where
  "and_then m f =
     (case snd m of
        Panics msg \<Rightarrow> (fst m, Panics msg)
      | Returns (Inl err) \<Rightarrow> (fst m, Returns (Inl err))
      | Returns (Inr x) \<Rightarrow> emit (fst m) (f x))"

text \<open>\<open>strings.Split(s, ",")\<close>: the pieces between the commas, one piece for a text with none.\<close>

fun strings_Split :: "char \<Rightarrow> string \<Rightarrow> string list" where
  "strings_Split sep [] = [[]]"
| "strings_Split sep (c # cs) =
     (if c = sep then [] # strings_Split sep cs
      else (case strings_Split sep cs of [] \<Rightarrow> [[c]] | w # ws \<Rightarrow> (c # w) # ws))"

text \<open>The whitelist is the list of the networks added to it, in the order of \<open>wl.Add\<close>.\<close>

fun parseACL_loop :: "config_env \<Rightarrow> net_IPNet list \<Rightarrow> string list \<Rightarrow> config_error + net_IPNet list" where
  "parseACL_loop env wl [] = Inr wl"
| "parseACL_loop env wl (x # xs) =
     (case net_ParseCIDR env (strings_TrimSpace env x) of
        Inl err \<Rightarrow> Inl (External err)
      | Inr n \<Rightarrow> parseACL_loop env (wl @ [n]) xs)"

definition parseACL :: "config_env \<Rightarrow> string \<Rightarrow> config_error + net_IPNet list" where
  "parseACL env nets = parseACL_loop env [] (strings_Split CHR '','' nets)"

record Root =
  PrivateKey :: crypto_Signer
  Certificate :: x509_Certificate
  Config :: "config_Signing option"
  ACL :: "net_IPNet list option"
  DB :: "sqlx_DB option"

text \<open>
  \<open>LoadRoot\<close> returns \<open>(nil, err)\<close>, here \<open>Inl err\<close>, or \<open>(&root, nil)\<close>, here
  \<open>Inr root\<close>. \<open>config_LoadFile\<close> gives the \<open>Signing\<close> field of the loaded
  configuration.
\<close>

definition LoadRoot :: "config_env \<Rightarrow> RawSection \<Rightarrow> (config_error + Root) config_io" where
  "LoadRoot env cfg =
     (case cfg ''private'' of
        None \<Rightarrow> ret (Inl ErrMissingPrivateKey)
      | Some spec \<Rightarrow>
          (case cfg ''certificate'' of
             None \<Rightarrow> ret (Inl ErrMissingCertificatePath)
           | Some certPath \<Rightarrow>
               (case cfg ''config'' of
                  None \<Rightarrow> ret (Inl ErrMissingConfigPath)
                | Some configPath \<Rightarrow>
                    and_then (parsePrivateKeySpec env spec cfg)
                      (\<lambda>priv.
                         emit [Call_ReadFile certPath]
                           (case os_ReadFile env certPath of
                              Inl err \<Rightarrow> ret (Inl (External err))
                            | Inr inp \<Rightarrow>
                                (case ParseCertificatePEM env inp of
                                   Inl err \<Rightarrow> ret (Inl (External err))
                                 | Inr cert \<Rightarrow>
                                     emit [Call_LoadFile configPath]
                                       (case config_LoadFile env configPath of
                                          Inl err \<Rightarrow> ret (Inl (External err))
                                        | Inr signing \<Rightarrow>
                                            and_then
                                              (let nets = index_map cfg ''nets'' in
                                               if nets \<noteq> []
                                               then ret (map_sum id Some (parseACL env nets))
                                               else ret (Inr None))
                                              (\<lambda>acl.
                                                 let dbConfig = index_map cfg ''dbconfig'' in
                                                 if dbConfig \<noteq> [] then
                                                   emit [Call_DBFromConfig dbConfig]
                                                     (case DBFromConfig env dbConfig of
                                                        Inl err \<Rightarrow> ret (Inl (External err))
                                                      | Inr db \<Rightarrow>
                                                          ret (Inr \<lparr>PrivateKey = priv,
                                                                    Certificate = cert,
                                                                    Config = signing,
                                                                    ACL = acl,
                                                                    DB = Some db\<rparr>))
                                                 else
                                                   ret (Inr \<lparr>PrivateKey = priv,
                                                             Certificate = cert,
                                                             Config = signing,
                                                             ACL = acl,
                                                             DB = None\<rparr>)))))))))"

definition ParseToRawMap :: "config_env \<Rightarrow> string \<Rightarrow> (RawMap \<times> config_error option) outcome" where
  "ParseToRawMap env fileName =
     (case os_Open env fileName of
        Inl err \<Rightarrow> Returns ([], Some (External err))
      | Inr text \<Rightarrow> parse_lines [] [] (scanner_lines text))"

type_synonym RootList = "(string \<times> Root) list"

text \<open>The loop of \<open>Parse\<close> over the entries of the map, in the order \<open>range\<close> gives them.\<close>

fun load_roots :: "config_env \<Rightarrow> RootList \<Rightarrow> RawMap \<Rightarrow> (config_error + RootList) config_io" where
  "load_roots env rootList [] = ret (Inr rootList)"
| "load_roots env rootList ((label, entries) # rest) =
     and_then (LoadRoot env entries)
       (\<lambda>root. load_roots env (AList.update label root rootList) rest)"

definition Parse :: "config_env \<Rightarrow> string \<Rightarrow> (config_error + RootList) config_io" where
  "Parse env filename =
     (case ParseToRawMap env filename of
        Panics msg \<Rightarrow> ([], Panics msg)
      | Returns (cfgMap, Some err) \<Rightarrow> ret (Inl err)
      | Returns (cfgMap, None) \<Rightarrow> load_roots env [] (range_RawMap env cfgMap))"

section \<open>signer/remote/remote.go: the remote signer\<close>

subsection \<open>What the package imports\<close>

datatype auth_Provider = ProviderHandle nat
datatype certdb_Accessor = AccessorHandle nat
datatype client_Remote = RemoteHandle nat
datatype req_modifier = ModifierHandle nat
datatype x509_CertPool = CertPoolHandle nat
datatype tls_Certificate = TLSCertificateHandle nat
datatype tls_Config = TLSConfigHandle nat
datatype info_Resp = InfoRespHandle nat

text \<open>
  A \<open>signer.SignRequest\<close> and an \<open>info.Req\<close>: the two fields \<open>remote.go\<close> reads, and
  the rest of the request, which it only hands to \<open>json.Marshal\<close>.
\<close>

record SignRequest =
  Label :: string
  Profile :: string
  Payload :: string

record info_Req =
  Label_info :: string
  Profile_info :: string

datatype request = SignReq SignRequest | InfoReq info_Req

record SigningProfile =
  RemoteServer :: string
  RemoteCAs :: "x509_CertPool option"
  ClientCert :: "tls_Certificate option"
  RemoteProvider :: "auth_Provider option"

text \<open>
  A \<open>certdb.CertificateRecord\<close>. Its field \<open>Subject\<close> is \<open>Subject_rec\<close> here, since
  the certificate's field has the name already.
\<close>

record CertificateRecord =
  Serial :: string
  Subject_rec :: string
  AKI :: string
  CALabel :: string
  CAProfile :: string
  Status :: string
  Expiry :: int
  PEM :: string
  Request :: string

datatype cf_category = APIClientError | PolicyError
datatype cf_reason = JSONError | InvalidRequest | InvalidPolicy
datatype remote_cause = CauseNew string | CauseExt ext_error

text \<open>
  The errors \<open>remote.go\<close> returns: \<open>cferr.New\<close> and \<open>cferr.Wrap\<close> values, and the
  errors of the functions it calls, handed on as they are.
\<close>

datatype remote_error = CfError cf_category cf_reason "remote_cause option" | Foreign ext_error

text \<open>What a response is when it travels as an \<open>interface{}\<close>.\<close>

datatype response = RespBytes bytes | RespInfo info_Resp

text \<open>
  \<open>helpers_ParseCertificatePEM\<close> returns both results of the Go function, the
  certificate pointer (nil is \<open>None\<close>) and the error, because \<open>Sign\<close> drops the error
  and reads the pointer. \<open>signer_Profile\<close> reads the signer through its policy.
\<close>

record remote_env =
  json_Marshal :: "request \<Rightarrow> ext_error + bytes"
  signer_Profile :: "config_Signing option \<Rightarrow> string \<Rightarrow> ext_error + SigningProfile"
  CreateTLSConfig :: "x509_CertPool option \<Rightarrow> tls_Certificate option \<Rightarrow> tls_Config"
  NewServerTLS :: "string \<Rightarrow> tls_Config \<Rightarrow> client_Remote option"
  server_Info :: "client_Remote \<Rightarrow> req_modifier option \<Rightarrow> bytes \<Rightarrow> ext_error + info_Resp"
  server_AuthSign ::
    "client_Remote \<Rightarrow> req_modifier option \<Rightarrow> bytes \<Rightarrow> bytes option \<Rightarrow> auth_Provider
       \<Rightarrow> ext_error + bytes"
  server_Sign :: "client_Remote \<Rightarrow> req_modifier option \<Rightarrow> bytes \<Rightarrow> ext_error + bytes"
  helpers_ParseCertificatePEM :: "bytes \<Rightarrow> x509_Certificate option \<times> ext_error option"
  InsertCertificate :: "certdb_Accessor \<Rightarrow> CertificateRecord \<Rightarrow> ext_error option"

text \<open>The calls that leave the process, and the log line of \<open>Sign\<close>, in order.\<close>

datatype remote_event =
    Call_SetReqModifier client_Remote "req_modifier option"
  | Call_Info client_Remote bytes
  | Call_AuthSign client_Remote bytes "bytes option" auth_Provider
  | Call_Sign client_Remote bytes
  | Call_InsertCertificate certdb_Accessor CertificateRecord
  | Log_Infof string "string list"

subsection \<open>The signer\<close>

record Signer =
  policy :: "config_Signing option"
  reqModifier :: "req_modifier option"
  dbAccessor :: "certdb_Accessor option"

definition SetPolicy :: "Signer \<Rightarrow> config_Signing option \<Rightarrow> Signer" where
  "SetPolicy s p = s\<lparr>policy := p\<rparr>"

definition SetDBAccessor :: "Signer \<Rightarrow> certdb_Accessor option \<Rightarrow> Signer" where
  "SetDBAccessor s dba = s\<lparr>dbAccessor := dba\<rparr>"

definition GetDBAccessor :: "Signer \<Rightarrow> certdb_Accessor option" where
  "GetDBAccessor s = dbAccessor s"

definition SetReqModifier :: "Signer \<Rightarrow> req_modifier option \<Rightarrow> Signer" where
  "SetReqModifier s m = s\<lparr>reqModifier := m\<rparr>"

definition Policy :: "Signer \<Rightarrow> config_Signing option" where
  "Policy s = policy s"

text \<open>
  \<open>remoteOp\<close> returns \<open>(nil, err)\<close>, here \<open>Inl err\<close>, or the response with a nil error.
  The auth provider is read on the second branch only, after the target was compared
  with \<open>"info"\<close>.
\<close>

definition remoteOp ::
  "remote_env \<Rightarrow> Signer \<Rightarrow> request \<Rightarrow> string \<Rightarrow> string
     \<Rightarrow> remote_event list \<times> (remote_error + response)" where
  "remoteOp env s req profile target =
     (case json_Marshal env req of
        Inl err \<Rightarrow> ([], Inl (CfError APIClientError JSONError (Some (CauseExt err))))
      | Inr jsonData \<Rightarrow>
     (case signer_Profile env (Policy s) profile of
        Inl err \<Rightarrow> ([], Inl (Foreign err))
      | Inr p \<Rightarrow>
     (case NewServerTLS env (RemoteServer p) (CreateTLSConfig env (RemoteCAs p) (ClientCert p)) of
        None \<Rightarrow>
          ([], Inl (CfError PolicyError InvalidRequest
                      (Some (CauseNew ''failed to connect to remote''))))
      | Some server \<Rightarrow>
          (let m = reqModifier s in
           if target = ''info'' then
             ([Call_SetReqModifier server m, Call_Info server jsonData],
              map_sum Foreign RespInfo (server_Info env server m jsonData))
           else
             (case RemoteProvider p of
                Some provider \<Rightarrow>
                  ([Call_SetReqModifier server m, Call_AuthSign server jsonData None provider],
                   map_sum Foreign RespBytes (server_AuthSign env server m jsonData None provider))
              | None \<Rightarrow>
                  ([Call_SetReqModifier server m, Call_Sign server jsonData],
                   map_sum Foreign RespBytes (server_Sign env server m jsonData)))))))"

text \<open>\<open>hex.EncodeToString\<close> and the decimal \<open>String\<close> of a \<open>big.Int\<close>.\<close>

definition hex_digit :: "nat \<Rightarrow> char" where
  "hex_digit n = ''0123456789abcdef'' ! (n mod 16)"

definition hex_EncodeToString :: "bytes \<Rightarrow> string" where
  "hex_EncodeToString src =
     concat (map (\<lambda>c. [hex_digit (of_char c div 16), hex_digit (of_char c mod 16)]) src)"

fun nat_String :: "nat \<Rightarrow> string" where
  "nat_String n =
     (if n < 10 then [''0123456789'' ! n] else nat_String (n div 10) @ [''0123456789'' ! (n mod 10)])"

declare nat_String.simps [simp del]

definition big_Int_String :: "int \<Rightarrow> string" where
  "big_Int_String i = (if i < 0 then CHR ''-'' # nat_String (nat (- i)) else nat_String (nat i))"

text \<open>
  \<open>Sign\<close> returns its two named results, \<open>cert\<close> (nil is \<open>None\<close>) and \<open>err\<close>. The
  error of \<open>helpers.ParseCertificatePEM\<close> is dropped; with a database accessor set, the
  first field of the record reads \<open>parsedCert.SerialNumber\<close>, which panics on a nil
  \<open>parsedCert\<close>.
\<close>

definition Sign ::
  "remote_env \<Rightarrow> Signer \<Rightarrow> SignRequest
     \<Rightarrow> remote_event list \<times> (bytes option \<times> remote_error option) outcome" where
  "Sign env s req =
     (case remoteOp env s (SignReq req) (Profile req) ''sign'' of
        (t, Inl err) \<Rightarrow> (t, Returns (None, Some err))
      | (t, Inr (RespInfo r)) \<Rightarrow> (t, Returns (None, None))
      | (t, Inr (RespBytes cert)) \<Rightarrow>
          (let parsedCert = fst (helpers_ParseCertificatePEM env cert) in
           case json_Marshal env (SignReq req) of
             Inl err \<Rightarrow> (t, Returns (None, Some (Foreign err)))
           | Inr reqJSON \<Rightarrow>
               (case dbAccessor s of
                  None \<Rightarrow> (t, Returns (Some cert, None))
                | Some dba \<Rightarrow>
                    (case parsedCert of
                       None \<Rightarrow> (t, Panics ''invalid memory address or nil pointer dereference'')
                     | Some pc \<Rightarrow>
                         (let certRecord =
                                \<lparr>Serial = big_Int_String (SerialNumber pc),
                                 Subject_rec = Subject pc,
                                 AKI = hex_EncodeToString (AuthorityKeyId pc),
                                 CALabel = Label req,
                                 CAProfile = Profile req,
                                 Status = ''good'',
                                 Expiry = NotAfter pc,
                                 PEM = cert,
                                 Request = reqJSON\<rparr>
                          in case InsertCertificate env dba certRecord of
                               Some err \<Rightarrow>
                                 (t @ [Call_InsertCertificate dba certRecord],
                                  Returns (None, Some (Foreign err)))
                             | None \<Rightarrow>
                                 (t @ [Call_InsertCertificate dba certRecord,
                                       Log_Infof ''saved certificate with serial number %s''
                                         [big_Int_String (SerialNumber pc)]],
                                  Returns (Some cert, None)))))))"

definition Info ::
  "remote_env \<Rightarrow> Signer \<Rightarrow> info_Req
     \<Rightarrow> remote_event list \<times> (info_Resp option \<times> remote_error option)" where
  "Info env s req =
     (case remoteOp env s (InfoReq req) (Profile_info req) ''info'' of
        (t, Inl err) \<Rightarrow> (t, (None, Some err))
      | (t, Inr (RespInfo resp)) \<Rightarrow> (t, (Some resp, None))
      | (t, Inr (RespBytes b)) \<Rightarrow> (t, (None, None)))"

section \<open>Observations on traces and lines\<close>

text \<open>The trace without its log lines: the calls made, in order.\<close>

fun is_log :: "config_event \<Rightarrow> bool" where
  "is_log (Log l args) = True"
| "is_log (Logf l f args) = True"
| "is_log e = False"

definition calls :: "config_event list \<Rightarrow> config_event list" where
  "calls t = filter (\<lambda>e. \<not> is_log e) t"

text \<open>The condition of the loop's last \<open>else\<close>: the line matches none of the patterns.\<close>

definition malformed :: "string \<Rightarrow> bool" where
  "malformed line =
     (\<not> MatchString commentLine line \<and> \<not> MatchString blankLine line \<and>
      \<not> MatchString configSection line \<and> \<not> MatchString configLine line)"

text \<open>
  A second description of the line format, to compare the patterns with. It reads a line
  from left to right without any pattern. A comment is a line whose first character is
  \<open>#\<close>. A blank line has only white space. A section header is \<open>[name]\<close> with
  optional white space before and after each bracket. A key/value line is a key, optional
  white space, \<open>=\<close>, optional white space and the value. Every other line is
  malformed. The key and the section name are non-empty runs of word characters.

  \<open>spec_value\<close> is the value of a key/value line, given the text after the equals
  sign and the white space that follows it: when that text, without its trailing white
  space, starts with a quote character and ends with another one (each can be \<open>"\<close> or
  \<open>'\<close>), the value is what stands between the two; otherwise it is the whole text.
\<close>

definition rstrip :: "string \<Rightarrow> string" where
  "rstrip s = rev (dropWhile is_space (rev s))"

definition spec_value :: "string \<Rightarrow> string" where
  "spec_value u =
     (let body = rstrip u in
      if 2 \<le> length body \<and> is_quote (hd body) \<and> is_quote (last body)
      then butlast (tl body) else u)"

datatype line_class = Comment | Blank | Section string | KeyValue string string | Malformed

definition spec_classify :: "string \<Rightarrow> line_class" where
  "spec_classify line =
     (if line \<noteq> [] \<and> hd line = CHR ''#'' then Comment
      else case dropWhile is_space line of
        [] \<Rightarrow> Blank
      | c # t \<Rightarrow>
          if c = CHR ''[''
          then (let name = takeWhile is_word (dropWhile is_space t) in
                case dropWhile is_space (dropWhile is_word (dropWhile is_space t)) of
                  [] \<Rightarrow> Malformed
                | d # t' \<Rightarrow>
                    if name \<noteq> [] \<and> d = CHR '']'' \<and> list_all is_space t' then Section name
                    else Malformed)
          else (let key = takeWhile is_word (c # t) in
                case dropWhile is_space (dropWhile is_word (c # t)) of
                  [] \<Rightarrow> Malformed
                | d # u \<Rightarrow>
                    if key \<noteq> [] \<and> d = CHR ''='' then KeyValue key (spec_value (dropWhile is_space u))
                    else Malformed))"

section \<open>Example environments\<close>

text \<open>
  A file system with a key file that is neither PEM nor DER, a certificate file without a
  PEM block and three configuration files; \<open>url.Parse\<close> on the four specifiers the
  examples use. Every other file is missing and every other call fails.
\<close>

definition example_url_Parse :: "string \<Rightarrow> ext_error + URL" where
  "example_url_Parse spec =
     (if spec = ''file:///tmp/key.pem''
      then Inr \<lparr>Scheme = ''file'', Host = [], Path = ''/tmp/key.pem''\<rparr>
      else if spec = ''file:///tmp/missing.pem''
      then Inr \<lparr>Scheme = ''file'', Host = [], Path = ''/tmp/missing.pem''\<rparr>
      else if spec = ''ssh://host/path''
      then Inr \<lparr>Scheme = ''ssh'', Host = ''host'', Path = ''/path''\<rparr>
      else if spec = ''pkcs11://''
      then Inr \<lparr>Scheme = ''pkcs11'', Host = [], Path = []\<rparr>
      else Inl (ExtError ''parse: missing protocol scheme''))"

definition example_files :: "string \<Rightarrow> ext_error + string" where
  "example_files path =
     (if path = ''/tmp/key.pem'' then Inr ''no key here''
      else if path = ''/tmp/cert.txt'' then Inr ''no certificate here''
      else if path = ''/etc/roots.conf''
      then Inr (''[primary]'' @ [CHR 0x0A] @ ''private = ssh://host/path'' @ [CHR 0x0A]
                @ ''certificate = /tmp/cert.txt'' @ [CHR 0x0A] @ ''config = /tmp/policy.json''
                @ [CHR 0x0A])
      else if path = ''/etc/bad.conf''
      then Inr (''[primary]'' @ [CHR 0x0A] @ ''this line is malformed'' @ [CHR 0x0A])
      else if path = ''/etc/indented.conf''
      then Inr (''  # an indented comment'' @ [CHR 0x0A])
      else Inl (ExtError ''open: no such file or directory''))"

definition example_env :: config_env where
  "example_env =
     \<lparr>os_Open = example_files,
      os_ReadFile = example_files,
      url_Parse = example_url_Parse,
      filepath_Join = (\<lambda>host path. host @ path),
      ParsePrivateKeyPEM = (\<lambda>b. Inl (ExtError ''failed to decode PEM block'')),
      ParsePrivateKeyDER = (\<lambda>b. Inl (ExtError ''failed to parse DER private key'')),
      NewRemoteServer = (\<lambda>server ca. Inl (ExtError ''no server'')),
      DecryptIntoData = (\<lambda>c r. Inl (ExtError ''no server'')),
      pem_Decode = (\<lambda>b. None),
      x509_ParseCertificate = (\<lambda>b. Inl (ExtError ''x509: malformed certificate'')),
      pkcs11key_New = (\<lambda>m l p k. Inl (ExtError ''pkcs11: no module'')),
      ParseCertificatePEM = (\<lambda>b. Inl (ExtError ''failed to parse certificate'')),
      config_LoadFile = (\<lambda>p. Inl (ExtError ''could not read configuration file'')),
      strings_TrimSpace = (\<lambda>s. s),
      net_ParseCIDR = (\<lambda>s. Inl (ExtError ''invalid CIDR address'')),
      DBFromConfig = (\<lambda>p. Inl (ExtError ''no database'')),
      range_RawMap = (\<lambda>m. m)\<rparr>"

text \<open>
  A remote CA for the examples: the profile \<open>garbled\<close> names a server whose answer to a
  sign call is no certificate; every other profile names a server that asks for
  authentication and answers with a certificate. The database refuses every insert.
\<close>

definition example_certificate :: x509_Certificate where
  "example_certificate =
     \<lparr>SerialNumber = 4096, Subject = ''CN=example'', AuthorityKeyId = [CHR 0x01, CHR 0xAB],
      NotAfter = 2000000000, PublicKey = PublicKeyHandle 0\<rparr>"

definition example_remote_env :: remote_env where
  "example_remote_env =
     \<lparr>json_Marshal = (\<lambda>r. Inr ''request as JSON''),
      signer_Profile = (\<lambda>pol name.
         if name = ''garbled''
         then Inr \<lparr>RemoteServer = ''broken.example.org'', RemoteCAs = None, ClientCert = None,
                   RemoteProvider = None\<rparr>
         else Inr \<lparr>RemoteServer = ''ca.example.org'', RemoteCAs = None, ClientCert = None,
                   RemoteProvider = Some (ProviderHandle 1)\<rparr>),
      CreateTLSConfig = (\<lambda>cas cert. TLSConfigHandle 0),
      NewServerTLS = (\<lambda>addr c.
         if addr = ''broken.example.org'' then Some (RemoteHandle 1) else Some (RemoteHandle 0)),
      server_Info = (\<lambda>srv m d. Inr (InfoRespHandle 0)),
      server_AuthSign = (\<lambda>srv m d tok pr. Inr ''PEM of the example certificate''),
      server_Sign = (\<lambda>srv m d. Inr ''no certificate here''),
      helpers_ParseCertificatePEM = (\<lambda>b.
         if b = ''PEM of the example certificate'' then (Some example_certificate, None)
         else (None, Some (ExtError ''failed to decode certificate''))),
      InsertCertificate = (\<lambda>dba r. Some (ExtError ''database is locked''))\<rparr>"

definition example_signer :: Signer where
  "example_signer =
     \<lparr>policy = Some (SigningHandle 0), reqModifier = None, dbAccessor = Some (AccessorHandle 0)\<rparr>"

text \<open>
  Two more configuration files, in an environment where the key and the certificate of
  one root load. \<open>/etc/long.conf\<close> holds a section \<open>a\<close> that loads, then a comment
  line of 65536 characters, then a malformed line and a section \<open>b\<close> without any key.
  \<open>/etc/hsm.conf\<close> holds one \<open>pkcs11\<close> root whose certificate file has no PEM
  block. \<open>join_lines\<close> writes a file from its lines, each ended by a newline.
\<close>

definition join_lines :: "string list \<Rightarrow> string" where
  "join_lines ls = concat (map (\<lambda>l. l @ [CHR 0x0A]) ls)"

definition slip_files :: "string \<Rightarrow> ext_error + string" where
  "slip_files path =
     (if path = ''/etc/long.conf''
      then Inr (join_lines
             ([''[a]'', ''private = file:///tmp/good.pem'', ''certificate = /tmp/good.crt'',
               ''config = /tmp/policy.json'']
              @ replicate 65536 CHR ''#'' # [''this line is malformed'', ''[b]'']))
      else if path = ''/etc/hsm.conf''
      then Inr (join_lines
             [''[hsm]'', ''private = pkcs11://'', ''certificate = /tmp/cert.txt'',
              ''config = /tmp/policy.json'', ''module = /usr/lib/hsm.so'', ''token_label = ca''])
      else if path = ''/tmp/good.pem'' then Inr ''PEM of a private key''
      else if path = ''/tmp/good.crt'' then Inr ''PEM of the example certificate''
      else if path = ''/tmp/cert.txt'' then Inr ''no certificate here''
      else Inl (ExtError ''open: no such file or directory''))"

definition slip_env :: config_env where
  "slip_env =
     example_env
       \<lparr>os_Open := slip_files,
        os_ReadFile := slip_files,
        url_Parse := (\<lambda>spec.
           if spec = ''file:///tmp/good.pem''
           then Inr \<lparr>Scheme = ''file'', Host = [], Path = ''/tmp/good.pem''\<rparr>
           else example_url_Parse spec),
        ParsePrivateKeyPEM := (\<lambda>b.
           if b = ''PEM of a private key'' then Inr (PrivateKeyHandle 1)
           else Inl (ExtError ''failed to decode PEM block'')),
        ParseCertificatePEM := (\<lambda>b.
           if b = ''PEM of the example certificate'' then Inr example_certificate
           else Inl (ExtError ''failed to parse certificate'')),
        config_LoadFile := (\<lambda>p.
           if p = ''/tmp/policy.json'' then Inr (Some (SigningHandle 0))
           else Inl (ExtError ''could not read configuration file''))\<rparr>"

section \<open>Properties of config.go\<close>

lemma snd_emit [simp]: "snd (emit es m) = snd m"
  by (simp add: emit_def)

lemma fst_emit [simp]: "fst (emit es m) = es @ fst m"
  by (simp add: emit_def)

lemma snd_ret [simp]: "snd (ret x) = Returns x"
  by (simp add: ret_def)

lemma fst_ret [simp]: "fst (ret x) = []"
  by (simp add: ret_def)

subsection \<open>LoadRoot: the required keys\<close>

text \<open>
  Claim C7. When one of the keys \<open>private\<close>, \<open>certificate\<close> and \<open>config\<close> is absent
  from the section, \<open>LoadRoot\<close> returns no root but the error of the first absent key,
  in that order, before it calls anything; the three errors are pairwise distinct, as
  values and as texts.
\<close>

theorem LoadRoot_missing_required_key:
  "(cfg ''private'' = None \<longrightarrow> LoadRoot env cfg = ([], Returns (Inl ErrMissingPrivateKey))) \<and>
   (cfg ''private'' \<noteq> None \<and> cfg ''certificate'' = None \<longrightarrow>
      LoadRoot env cfg = ([], Returns (Inl ErrMissingCertificatePath))) \<and>
   (cfg ''private'' \<noteq> None \<and> cfg ''certificate'' \<noteq> None \<and> cfg ''config'' = None \<longrightarrow>
      LoadRoot env cfg = ([], Returns (Inl ErrMissingConfigPath))) \<and>
   distinct [ErrMissingPrivateKey, ErrMissingCertificatePath, ErrMissingConfigPath] \<and>
   distinct (map Error_text [ErrMissingPrivateKey, ErrMissingCertificatePath, ErrMissingConfigPath])"
  by (auto simp: LoadRoot_def ret_def)

theorem LoadRoot_missing_required_key_witness:
  "LoadRoot example_env Map.empty = ([], Returns (Inl ErrMissingPrivateKey)) \<and>
   LoadRoot example_env [''private'' \<mapsto> ''file:///tmp/key.pem'']
     = ([], Returns (Inl ErrMissingCertificatePath)) \<and>
   LoadRoot example_env
       [''private'' \<mapsto> ''file:///tmp/key.pem'', ''certificate'' \<mapsto> ''/tmp/cert.txt'']
     = ([], Returns (Inl ErrMissingConfigPath))"
  using LoadRoot_missing_required_key [of Map.empty example_env]
    LoadRoot_missing_required_key [of "[''private'' \<mapsto> ''file:///tmp/key.pem'']" example_env]
    LoadRoot_missing_required_key
      [of "[''private'' \<mapsto> ''file:///tmp/key.pem'', ''certificate'' \<mapsto> ''/tmp/cert.txt'']"
        example_env]
  by simp

subsection \<open>parsePrivateKeySpec: the schemes\<close>

lemma key_from_file_not_unsupported:
  "snd (key_from_file env u) \<noteq> Returns (Inl ErrUnsupportedScheme)"
  by (simp add: key_from_file_def parse_pem_then_der_def Let_def split: sum.splits)

lemma key_from_rofile_not_unsupported:
  "snd (key_from_rofile env u cfg) \<noteq> Returns (Inl ErrUnsupportedScheme)"
  by (simp add: key_from_rofile_def parse_pem_then_der_def Let_def split: sum.splits)

lemma key_from_pkcs11_not_unsupported:
  "snd (key_from_pkcs11 env cfg) \<noteq> Returns (Inl ErrUnsupportedScheme)"
  by (simp add: key_from_pkcs11_def Let_def split: sum.splits option.splits)

text \<open>
  Claim C9. For a key specifier that \<open>url.Parse\<close> accepts and whose scheme is none of
  \<open>file\<close>, \<open>rofile\<close> and \<open>pkcs11\<close>, \<open>parsePrivateKeySpec\<close> calls nothing and
  returns \<open>ErrUnsupportedScheme\<close>, and so does \<open>LoadRoot\<close> on a section with the three
  required keys. The three backends never return that value, and it differs from the
  missing-field errors and from every error made by \<open>errors.New\<close> or handed on from
  another package.
\<close>

theorem unsupported_scheme:
  assumes "url_Parse env spec = Inr u"
  shows "(Scheme u \<notin> {''file'', ''rofile'', ''pkcs11''} \<longrightarrow>
            parsePrivateKeySpec env spec cfg = ([], Returns (Inl ErrUnsupportedScheme)) \<and>
            (cfg ''private'' = Some spec \<and> cfg ''certificate'' \<noteq> None \<and> cfg ''config'' \<noteq> None \<longrightarrow>
               LoadRoot env cfg = ([], Returns (Inl ErrUnsupportedScheme)))) \<and>
         (Scheme u \<in> {''file'', ''rofile'', ''pkcs11''} \<longrightarrow>
            snd (parsePrivateKeySpec env spec cfg) \<noteq> Returns (Inl ErrUnsupportedScheme)) \<and>
         ErrUnsupportedScheme \<notin>
           {ErrMissingPrivateKey, ErrMissingCertificatePath, ErrMissingConfigPath, ErrInvalidConfig}
             \<union> range ErrorsNew \<union> range External"
proof -
  have a: "parsePrivateKeySpec env spec cfg = ([], Returns (Inl ErrUnsupportedScheme))"
    if "Scheme u \<notin> {''file'', ''rofile'', ''pkcs11''}"
    using that assms by (simp add: parsePrivateKeySpec_def ret_def)
  have b: "LoadRoot env cfg = ([], Returns (Inl ErrUnsupportedScheme))"
    if "Scheme u \<notin> {''file'', ''rofile'', ''pkcs11''}" and "cfg ''private'' = Some spec"
      and "cfg ''certificate'' \<noteq> None" and "cfg ''config'' \<noteq> None"
    using that a by (auto simp: LoadRoot_def and_then_def)
  have c: "snd (parsePrivateKeySpec env spec cfg) \<noteq> Returns (Inl ErrUnsupportedScheme)"
    if "Scheme u \<in> {''file'', ''rofile'', ''pkcs11''}"
    using that assms key_from_file_not_unsupported key_from_rofile_not_unsupported
      key_from_pkcs11_not_unsupported
    by (auto simp: parsePrivateKeySpec_def)
  show ?thesis using a b c by auto
qed

theorem unsupported_scheme_witness:
  "parsePrivateKeySpec example_env ''ssh://host/path'' Map.empty
     = ([], Returns (Inl ErrUnsupportedScheme)) \<and>
   LoadRoot example_env
       [''private'' \<mapsto> ''ssh://host/path'', ''certificate'' \<mapsto> ''/tmp/cert.txt'',
        ''config'' \<mapsto> ''/tmp/policy.json'']
     = ([], Returns (Inl ErrUnsupportedScheme)) \<and>
   snd (parsePrivateKeySpec example_env ''file:///tmp/missing.pem'' Map.empty)
     \<noteq> Returns (Inl ErrUnsupportedScheme)"
  using unsupported_scheme [of example_env "''ssh://host/path''"
      "\<lparr>Scheme = ''ssh'', Host = ''host'', Path = ''/path''\<rparr>" Map.empty]
    unsupported_scheme [of example_env "''ssh://host/path''"
      "\<lparr>Scheme = ''ssh'', Host = ''host'', Path = ''/path''\<rparr>"
      "[''private'' \<mapsto> ''ssh://host/path'', ''certificate'' \<mapsto> ''/tmp/cert.txt'',
        ''config'' \<mapsto> ''/tmp/policy.json'']"]
    unsupported_scheme [of example_env "''file:///tmp/missing.pem''"
      "\<lparr>Scheme = ''file'', Host = [], Path = ''/tmp/missing.pem''\<rparr>" Map.empty]
  by (simp add: example_env_def example_url_Parse_def)

text \<open>
  Claim C8. For a specifier of scheme \<open>file\<close>, the resolver reads the file at the path
  joined from the host and the path of the URL; a read error is returned as it is.
  Otherwise it calls the PEM parser on the bytes first, calls the DER parser on the same
  bytes exactly when the PEM parser failed, and when both fail it returns the error of
  the DER parser.
\<close>

theorem file_key_pem_then_der:
  assumes "url_Parse env spec = Inr u" and "Scheme u = ''file''"
  shows "(case os_ReadFile env (filepath_Join env (Host u) (Path u)) of
            Inl err \<Rightarrow>
              calls (fst (parsePrivateKeySpec env spec cfg))
                = [Call_ReadFile (filepath_Join env (Host u) (Path u))] \<and>
              snd (parsePrivateKeySpec env spec cfg) = Returns (Inl (External err))
          | Inr inp \<Rightarrow>
              (case ParsePrivateKeyPEM env inp of
                 Inr priv \<Rightarrow>
                   calls (fst (parsePrivateKeySpec env spec cfg))
                     = [Call_ReadFile (filepath_Join env (Host u) (Path u)),
                        Call_ParsePrivateKeyPEM inp] \<and>
                   snd (parsePrivateKeySpec env spec cfg) = Returns (Inr priv)
               | Inl pem_err \<Rightarrow>
                   calls (fst (parsePrivateKeySpec env spec cfg))
                     = [Call_ReadFile (filepath_Join env (Host u) (Path u)),
                        Call_ParsePrivateKeyPEM inp, Call_ParsePrivateKeyDER inp] \<and>
                   snd (parsePrivateKeySpec env spec cfg)
                     = (case ParsePrivateKeyDER env inp of
                          Inl der_err \<Rightarrow> Returns (Inl (External der_err))
                        | Inr priv \<Rightarrow> Returns (Inr priv))))"
  using assms
  by (auto simp: parsePrivateKeySpec_def key_from_file_def parse_pem_then_der_def Let_def
      calls_def split: sum.splits)

theorem file_key_pem_then_der_witness:
  "calls (fst (parsePrivateKeySpec example_env ''file:///tmp/key.pem'' Map.empty))
     = [Call_ReadFile ''/tmp/key.pem'', Call_ParsePrivateKeyPEM ''no key here'',
        Call_ParsePrivateKeyDER ''no key here''] \<and>
   snd (parsePrivateKeySpec example_env ''file:///tmp/key.pem'' Map.empty)
     = Returns (Inl (External (ExtError ''failed to parse DER private key'')))"
  using file_key_pem_then_der [of example_env "''file:///tmp/key.pem''"
      "\<lparr>Scheme = ''file'', Host = [], Path = ''/tmp/key.pem''\<rparr>" Map.empty]
  by (simp add: example_env_def example_url_Parse_def example_files_def)

text \<open>
  Claim C10. In the \<open>pkcs11\<close> case, with \<open>module\<close>, \<open>token_label\<close> and
  \<open>certificate\<close> set and the certificate file readable, the block that \<open>pem.Decode\<close>
  returns is read without a nil check. When the file holds no PEM block the call
  panics, having done nothing but read the file: no error is returned. It returns, a
  key or an error, exactly when the file holds a PEM block.
\<close>

theorem pkcs11_nil_block:
  assumes "url_Parse env spec = Inr u" and "Scheme u = ''pkcs11''"
    and "index_map cfg ''module'' \<noteq> []" and "index_map cfg ''token_label'' \<noteq> []"
    and "index_map cfg ''certificate'' \<noteq> []"
    and "os_ReadFile env (index_map cfg ''certificate'') = Inr p"
  shows "(pem_Decode env p = None \<longrightarrow>
            snd (parsePrivateKeySpec env spec cfg)
              = Panics ''invalid memory address or nil pointer dereference'' \<and>
            calls (fst (parsePrivateKeySpec env spec cfg))
              = [Call_ReadFile (index_map cfg ''certificate'')]) \<and>
         (pem_Decode env p \<noteq> None \<longrightarrow>
            (\<exists>r. snd (parsePrivateKeySpec env spec cfg) = Returns r))"
  using assms
  by (auto simp: parsePrivateKeySpec_def key_from_pkcs11_def Let_def calls_def
      split: sum.splits option.splits)

theorem pkcs11_nil_block_witness:
  "snd (parsePrivateKeySpec example_env ''pkcs11://''
          [''module'' \<mapsto> ''/usr/lib/hsm.so'', ''token_label'' \<mapsto> ''ca'',
           ''certificate'' \<mapsto> ''/tmp/cert.txt''])
     = Panics ''invalid memory address or nil pointer dereference''"
  using pkcs11_nil_block [of example_env "''pkcs11://''"
      "\<lparr>Scheme = ''pkcs11'', Host = [], Path = []\<rparr>"
      "[''module'' \<mapsto> ''/usr/lib/hsm.so'', ''token_label'' \<mapsto> ''ca'',
        ''certificate'' \<mapsto> ''/tmp/cert.txt'']"
      "''no certificate here''"]
  by (simp add: example_env_def example_url_Parse_def example_files_def index_map_def)

subsection \<open>Parse\<close>

lemma SectionInConfig_iff: "SectionInConfig c k = (k \<in> fst ` set c)"
  by (auto simp: SectionInConfig_def list_ex_iff)

lemma SectionInConfig_update:
  "SectionInConfig (AList.update k v c) k' = (k' = k \<or> SectionInConfig c k')"
  by (auto simp: SectionInConfig_iff dom_update)

lemma map_of_None_iff_section: "(map_of c k = None) = (\<not> SectionInConfig c k)"
  by (simp add: SectionInConfig_iff map_of_eq_None_iff)

lemma parse_lines_returns:
  "currentSection = [] \<or> SectionInConfig cfg currentSection \<Longrightarrow>
   \<exists>m e. parse_lines cfg currentSection ls = Returns (m, e)"
proof (induction ls arbitrary: cfg currentSection)
  case Nil
  then show ?case by simp
next
  case (Cons line rest)
  show ?case
  proof (cases "MatchString commentLine line \<or> MatchString blankLine line")
    case True
    then show ?thesis using Cons.IH [OF Cons.prems] by auto
  next
    case skip: False
    show ?thesis
    proof (cases "MatchString configSection line")
      case True
      then show ?thesis using skip
        by (auto simp: Let_def SectionInConfig_update intro!: Cons.IH)
    next
      case nosec: False
      show ?thesis
      proof (cases "MatchString configLine line")
        case True
        then show ?thesis using skip nosec Cons.prems
          by (auto simp: Let_def SectionInConfig_update map_of_None_iff_section
              split: option.splits intro!: Cons.IH)
      next
        case False
        then show ?thesis using skip nosec by simp
      qed
    qed
  qed
qed

lemma parse_lines_malformed:
  "currentSection = [] \<or> SectionInConfig cfg currentSection \<Longrightarrow>
   l \<in> set ls \<Longrightarrow> malformed l \<Longrightarrow>
   \<exists>m. parse_lines cfg currentSection ls = Returns (m, Some (FmtErrorf ''invalid config file''))"
proof (induction ls arbitrary: cfg currentSection)
  case Nil
  then show ?case by simp
next
  case (Cons line rest)
  show ?case
  proof (cases "l = line")
    case True
    then show ?thesis using Cons.prems(3) by (simp add: malformed_def)
  next
    case False
    then have l: "l \<in> set rest" using Cons.prems(2) by simp
    show ?thesis
    proof (cases "MatchString commentLine line \<or> MatchString blankLine line")
      case True
      then show ?thesis using Cons.IH [OF Cons.prems(1) l Cons.prems(3)] by auto
    next
      case skip: False
      show ?thesis
      proof (cases "MatchString configSection line")
        case True
        then show ?thesis using skip l Cons.prems(3)
          by (auto simp: Let_def SectionInConfig_update intro!: Cons.IH)
      next
        case nosec: False
        show ?thesis
        proof (cases "MatchString configLine line")
          case True
          then show ?thesis using skip nosec Cons.prems l
            by (auto simp: Let_def SectionInConfig_update map_of_None_iff_section
                split: option.splits intro!: Cons.IH)
        next
          case False
          then show ?thesis using skip nosec by simp
        qed
      qed
    qed
  qed
qed

text \<open>The assignment into a nil map is never reached: \<open>ParseToRawMap\<close> always returns.\<close>

lemma ParseToRawMap_returns: "\<exists>m e. ParseToRawMap env fileName = Returns (m, e)"
  using parse_lines_returns [of "[]" "[]"]
  by (auto simp: ParseToRawMap_def split: sum.splits)

lemma and_then_snd_cases:
  "snd (and_then m f) =
     (case snd m of Panics msg \<Rightarrow> Panics msg
      | Returns (Inl err) \<Rightarrow> Returns (Inl err)
      | Returns (Inr x) \<Rightarrow> snd (f x))"
  by (simp add: and_then_def split: outcome.splits sum.splits)

lemma load_roots_ok:
  "snd (load_roots env rl m) = Returns (Inr rl') \<Longrightarrow> (l, sec) \<in> set m \<Longrightarrow>
   \<exists>root. snd (LoadRoot env sec) = Returns (Inr root)"
proof (induction m arbitrary: rl)
  case Nil
  then show ?case by simp
next
  case (Cons a m)
  obtain l0 s0 where a: "a = (l0, s0)" by (cases a)
  from Cons.prems(1) obtain root where r: "snd (LoadRoot env s0) = Returns (Inr root)"
    and rest: "snd (load_roots env (AList.update l0 root rl) m) = Returns (Inr rl')"
    by (auto simp: a and_then_snd_cases split: outcome.splits sum.splits)
  show ?case
  proof (cases "(l, sec) = a")
    case True
    then show ?thesis using r a by auto
  next
    case False
    then show ?thesis using Cons.IH [OF rest] Cons.prems(2) by auto
  qed
qed

lemma load_roots_error:
  "snd (load_roots env rl m) = Returns (Inl e) \<Longrightarrow>
   \<exists>l sec. (l, sec) \<in> set m \<and> snd (LoadRoot env sec) = Returns (Inl e)"
proof (induction m arbitrary: rl)
  case Nil
  then show ?case by simp
next
  case (Cons a m)
  obtain l0 s0 where a: "a = (l0, s0)" by (cases a)
  show ?case
  proof (cases "snd (LoadRoot env s0)")
    case (Panics msg)
    then show ?thesis using Cons.prems by (simp add: a and_then_snd_cases)
  next
    case (Returns r)
    show ?thesis
    proof (cases r)
      case (Inl e0)
      then show ?thesis using Cons.prems Returns a by (auto simp: and_then_snd_cases)
    next
      case (Inr root)
      then have "snd (load_roots env (AList.update l0 root rl) m) = Returns (Inl e)"
        using Cons.prems Returns a by (simp add: and_then_snd_cases)
      from Cons.IH [OF this] show ?thesis by auto
    qed
  qed
qed

lemma load_roots_panic:
  "snd (load_roots env rl m) = Panics msg \<Longrightarrow>
   \<exists>l sec. (l, sec) \<in> set m \<and> snd (LoadRoot env sec) = Panics msg"
proof (induction m arbitrary: rl)
  case Nil
  then show ?case by simp
next
  case (Cons a m)
  obtain l0 s0 where a: "a = (l0, s0)" by (cases a)
  show ?case
  proof (cases "snd (LoadRoot env s0)")
    case (Panics msg')
    then show ?thesis using Cons.prems a by (auto simp: and_then_snd_cases)
  next
    case (Returns r)
    show ?thesis
    proof (cases r)
      case (Inl e0)
      then show ?thesis using Cons.prems Returns a by (auto simp: and_then_snd_cases)
    next
      case (Inr root)
      then have "snd (load_roots env (AList.update l0 root rl) m) = Panics msg"
        using Cons.prems Returns a by (simp add: and_then_snd_cases)
      from Cons.IH [OF this] show ?thesis by auto
    qed
  qed
qed

text \<open>
  The error paths of \<open>Parse\<close>. When the file cannot be opened, or when a line the
  scanner delivers is malformed, it returns that error and no root list, without loading
  any root. When the file parses and the \<open>range\<close> loop visits every section, one
  section whose \<open>LoadRoot\<close> returns an error is enough for \<open>Parse\<close> to return no
  root list; unless a root panics, what it returns is the error of a section that failed.
\<close>

lemma Parse_error_paths:
  "(os_Open env filename = Inl err \<longrightarrow> Parse env filename = ([], Returns (Inl (External err)))) \<and>
   (os_Open env filename = Inr text \<and> l \<in> set (scanner_lines text) \<and> malformed l \<longrightarrow>
      Parse env filename = ([], Returns (Inl (FmtErrorf ''invalid config file'')))) \<and>
   (ParseToRawMap env filename = Returns (cfgMap, None) \<and>
    set (range_RawMap env cfgMap) = set cfgMap \<and>
    (label, entries) \<in> set cfgMap \<and> snd (LoadRoot env entries) = Returns (Inl e) \<longrightarrow>
      (\<forall>rootList. snd (Parse env filename) \<noteq> Returns (Inr rootList)) \<and>
      ((\<forall>msg. snd (Parse env filename) \<noteq> Panics msg) \<longrightarrow>
         (\<exists>label' entries' e'. (label', entries') \<in> set cfgMap \<and>
            snd (LoadRoot env entries') = Returns (Inl e') \<and>
            snd (Parse env filename) = Returns (Inl e'))))"
proof (intro conjI impI)
  assume "os_Open env filename = Inl err"
  then show "Parse env filename = ([], Returns (Inl (External err)))"
    by (simp add: Parse_def ParseToRawMap_def ret_def)
next
  assume a: "os_Open env filename = Inr text \<and> l \<in> set (scanner_lines text) \<and> malformed l"
  then obtain m where
    "parse_lines [] [] (scanner_lines text) = Returns (m, Some (FmtErrorf ''invalid config file''))"
    using parse_lines_malformed [of "[]" "[]" l "scanner_lines text"] by auto
  then show "Parse env filename = ([], Returns (Inl (FmtErrorf ''invalid config file'')))"
    using a by (simp add: Parse_def ParseToRawMap_def ret_def)
next
  assume a: "ParseToRawMap env filename = Returns (cfgMap, None) \<and>
    set (range_RawMap env cfgMap) = set cfgMap \<and>
    (label, entries) \<in> set cfgMap \<and> snd (LoadRoot env entries) = Returns (Inl e)"
  then have P: "Parse env filename = load_roots env [] (range_RawMap env cfgMap)"
    by (simp add: Parse_def)
  have mem: "(label, entries) \<in> set (range_RawMap env cfgMap)" using a by simp
  show "\<forall>rootList. snd (Parse env filename) \<noteq> Returns (Inr rootList)"
  proof (intro allI notI)
    fix rootList
    assume "snd (Parse env filename) = Returns (Inr rootList)"
    then have "\<exists>root. snd (LoadRoot env entries) = Returns (Inr root)"
      using load_roots_ok [OF _ mem] P by simp
    then show False using a by simp
  qed
next
  assume a: "ParseToRawMap env filename = Returns (cfgMap, None) \<and>
    set (range_RawMap env cfgMap) = set cfgMap \<and>
    (label, entries) \<in> set cfgMap \<and> snd (LoadRoot env entries) = Returns (Inl e)"
  assume np: "\<forall>msg. snd (Parse env filename) \<noteq> Panics msg"
  from a have P: "Parse env filename = load_roots env [] (range_RawMap env cfgMap)"
    by (simp add: Parse_def)
  have mem: "(label, entries) \<in> set (range_RawMap env cfgMap)" using a by simp
  show "\<exists>label' entries' e'. (label', entries') \<in> set cfgMap \<and>
            snd (LoadRoot env entries') = Returns (Inl e') \<and>
            snd (Parse env filename) = Returns (Inl e')"
  proof (cases "snd (Parse env filename)")
    case (Panics msg)
    then show ?thesis using np by simp
  next
    case (Returns r)
    show ?thesis
    proof (cases r)
      case (Inl e')
      then have "snd (load_roots env [] (range_RawMap env cfgMap)) = Returns (Inl e')"
        using Returns P by simp
      from load_roots_error [OF this] show ?thesis using a Returns Inl by auto
    next
      case (Inr rl)
      then have "\<exists>root. snd (LoadRoot env entries) = Returns (Inr root)"
        using load_roots_ok [OF _ mem] P Returns by simp
      then show ?thesis using a by simp
    qed
  qed
qed

lemma ex_line_primary:
  "MatchString commentLine ''[primary]'' = False \<and> MatchString blankLine ''[primary]'' = False \<and>
   MatchString configSection ''[primary]'' = True \<and>
   ReplaceAllString configSection ''[primary]'' (Suc 0) = ''primary''"
  by code_simp

lemma ex_line_private:
  "MatchString commentLine ''private = ssh://host/path'' = False \<and>
   MatchString blankLine ''private = ssh://host/path'' = False \<and>
   MatchString configSection ''private = ssh://host/path'' = False \<and>
   MatchString configLine ''private = ssh://host/path'' = True \<and>
   line_key ''private = ssh://host/path'' = ''private'' \<and>
   line_val ''private = ssh://host/path'' = ''ssh://host/path''"
  by code_simp

lemma ex_line_certificate:
  "MatchString commentLine ''certificate = /tmp/cert.txt'' = False \<and>
   MatchString blankLine ''certificate = /tmp/cert.txt'' = False \<and>
   MatchString configSection ''certificate = /tmp/cert.txt'' = False \<and>
   MatchString configLine ''certificate = /tmp/cert.txt'' = True \<and>
   line_key ''certificate = /tmp/cert.txt'' = ''certificate'' \<and>
   line_val ''certificate = /tmp/cert.txt'' = ''/tmp/cert.txt''"
  by code_simp

lemma ex_line_config:
  "MatchString commentLine ''config = /tmp/policy.json'' = False \<and>
   MatchString blankLine ''config = /tmp/policy.json'' = False \<and>
   MatchString configSection ''config = /tmp/policy.json'' = False \<and>
   MatchString configLine ''config = /tmp/policy.json'' = True \<and>
   line_key ''config = /tmp/policy.json'' = ''config'' \<and>
   line_val ''config = /tmp/policy.json'' = ''/tmp/policy.json''"
  by code_simp

lemma ex_roots_lines:
  "scanner_lines (''[primary]'' @ [CHR 0x0A] @ ''private = ssh://host/path'' @ [CHR 0x0A]
                @ ''certificate = /tmp/cert.txt'' @ [CHR 0x0A] @ ''config = /tmp/policy.json''
                @ [CHR 0x0A])
   = [''[primary]'', ''private = ssh://host/path'', ''certificate = /tmp/cert.txt'',
      ''config = /tmp/policy.json'']"
  by (simp add: scanner_lines_def MaxScanTokenSize_def dropCR_def)

lemma ex_roots: "ParseToRawMap example_env ''/etc/roots.conf''
  = Returns ([(''primary'', [''private'' \<mapsto> ''ssh://host/path'', ''certificate'' \<mapsto> ''/tmp/cert.txt'',
        ''config'' \<mapsto> ''/tmp/policy.json''])], None)"
  unfolding ParseToRawMap_def
  apply (simp add: example_env_def example_files_def del: append.simps)
  apply (simp only: ex_roots_lines)
  apply (simp add: ex_line_primary ex_line_private ex_line_certificate ex_line_config
      SectionInConfig_def Let_def)
  done



lemma Parse_error_paths_example:
  "Parse example_env ''/etc/missing.conf''
     = ([], Returns (Inl (External (ExtError ''open: no such file or directory'')))) \<and>
   Parse example_env ''/etc/bad.conf'' = ([], Returns (Inl (FmtErrorf ''invalid config file''))) \<and>
   (\<forall>rootList. snd (Parse example_env ''/etc/roots.conf'') \<noteq> Returns (Inr rootList))"
proof -
  have 1: "os_Open example_env ''/etc/missing.conf'' = Inl (ExtError ''open: no such file or directory'')"
    by (simp add: example_env_def example_files_def)
  have 2: "os_Open example_env ''/etc/bad.conf''
      = Inr (''[primary]'' @ [CHR 0x0A] @ ''this line is malformed'' @ [CHR 0x0A])"
    by (simp add: example_env_def example_files_def)
  have 3: "''this line is malformed''
      \<in> set (scanner_lines (''[primary]'' @ [CHR 0x0A] @ ''this line is malformed'' @ [CHR 0x0A]))"
    by (simp add: scanner_lines_def MaxScanTokenSize_def dropCR_def)
  have 4: "malformed ''this line is malformed''"
    by code_simp
  have 6: "range_RawMap example_env m = m" for m
    by (simp add: example_env_def)
  have 7: "snd (LoadRoot example_env [''private'' \<mapsto> ''ssh://host/path'',
          ''certificate'' \<mapsto> ''/tmp/cert.txt'', ''config'' \<mapsto> ''/tmp/policy.json''])
      = Returns (Inl ErrUnsupportedScheme)"
    by (simp add: LoadRoot_def parsePrivateKeySpec_def example_env_def example_url_Parse_def
        and_then_def)
  show ?thesis
    using Parse_error_paths [of example_env "''/etc/missing.conf''"
        "ExtError ''open: no such file or directory''"]
      Parse_error_paths [of example_env "''/etc/bad.conf''" _
        "''[primary]'' @ [CHR 0x0A] @ ''this line is malformed'' @ [CHR 0x0A]"
        "''this line is malformed''"]
      Parse_error_paths [of example_env "''/etc/roots.conf''" _ _ _
        "[(''primary'', [''private'' \<mapsto> ''ssh://host/path'',
          ''certificate'' \<mapsto> ''/tmp/cert.txt'', ''config'' \<mapsto> ''/tmp/policy.json''])]"
        "''primary''" "[''private'' \<mapsto> ''ssh://host/path'',
          ''certificate'' \<mapsto> ''/tmp/cert.txt'', ''config'' \<mapsto> ''/tmp/policy.json'']"
        ErrUnsupportedScheme]
      1 2 3 4 ex_roots 6 7
    by simp
qed

text \<open>What the scanner delivers from a file written line by line.\<close>

lemma splitLines_line:
  "CHR 0x0A \<notin> set l \<Longrightarrow> splitLines (l @ CHR 0x0A # r) = l # splitLines r"
  by (induction l) auto

lemma splitLines_join:
  "\<forall>l \<in> set ls. CHR 0x0A \<notin> set l \<Longrightarrow> splitLines (join_lines ls) = ls"
proof (induction ls)
  case Nil
  then show ?case by (simp add: join_lines_def)
next
  case (Cons l ls)
  have "join_lines (l # ls) = l @ CHR 0x0A # join_lines ls"
    by (simp add: join_lines_def)
  then show ?case using Cons by (simp add: splitLines_line)
qed

lemma scanner_lines_join:
  assumes "\<forall>l \<in> set ls. CHR 0x0A \<notin> set l \<and> length l < MaxScanTokenSize \<and> dropCR l = l"
  shows "scanner_lines (join_lines ls) = ls"
proof -
  have a: "splitLines (join_lines ls) = ls" using assms by (intro splitLines_join) auto
  have b: "takeWhile (\<lambda>l. length l < MaxScanTokenSize) ls = ls"
    using assms by (auto simp: takeWhile_eq_all_conv)
  have c: "map dropCR ls = ls" using assms by (simp add: map_idI)
  show ?thesis unfolding scanner_lines_def a b c by (rule refl)
qed

lemma scanner_lines_oversize:
  assumes "\<forall>l \<in> set ls. CHR 0x0A \<notin> set l \<and> length l < MaxScanTokenSize \<and> dropCR l = l"
    and "CHR 0x0A \<notin> set long" and "MaxScanTokenSize \<le> length long"
    and "\<forall>l \<in> set after. CHR 0x0A \<notin> set l"
  shows "scanner_lines (join_lines (ls @ long # after)) = ls"
proof -
  have a: "splitLines (join_lines (ls @ long # after)) = ls @ long # after"
    using assms by (intro splitLines_join) auto
  have b: "takeWhile (\<lambda>l. length l < MaxScanTokenSize) (ls @ long # after) = ls"
    using assms by (simp add: takeWhile_append2)
  have c: "map dropCR ls = ls" using assms by (simp add: map_idI)
  show ?thesis unfolding scanner_lines_def a b c by (rule refl)
qed

lemma ex_long_lines:
  "scanner_lines (join_lines
             ([''[a]'', ''private = file:///tmp/good.pem'', ''certificate = /tmp/good.crt'',
               ''config = /tmp/policy.json'']
              @ replicate 65536 CHR ''#'' # [''this line is malformed'', ''[b]'']))
   = [''[a]'', ''private = file:///tmp/good.pem'', ''certificate = /tmp/good.crt'',
               ''config = /tmp/policy.json'']"
  by (rule scanner_lines_oversize) (simp_all add: MaxScanTokenSize_def dropCR_def)

lemma ex_hsm_lines:
  "scanner_lines (join_lines
             [''[hsm]'', ''private = pkcs11://'', ''certificate = /tmp/cert.txt'',
              ''config = /tmp/policy.json'', ''module = /usr/lib/hsm.so'', ''token_label = ca''])
   = [''[hsm]'', ''private = pkcs11://'', ''certificate = /tmp/cert.txt'',
              ''config = /tmp/policy.json'', ''module = /usr/lib/hsm.so'', ''token_label = ca'']"
  by (rule scanner_lines_join) (simp add: MaxScanTokenSize_def dropCR_def)

lemma ex_line_a:
  "MatchString commentLine ''[a]'' = False \<and> MatchString blankLine ''[a]'' = False \<and>
   MatchString configSection ''[a]'' = True \<and>
   ReplaceAllString configSection ''[a]'' (Suc 0) = ''a''"
  by code_simp

lemma ex_line_hsm:
  "MatchString commentLine ''[hsm]'' = False \<and> MatchString blankLine ''[hsm]'' = False \<and>
   MatchString configSection ''[hsm]'' = True \<and>
   ReplaceAllString configSection ''[hsm]'' (Suc 0) = ''hsm''"
  by code_simp

lemma ex_line_good_private:
  "MatchString commentLine ''private = file:///tmp/good.pem'' = False \<and>
   MatchString blankLine ''private = file:///tmp/good.pem'' = False \<and>
   MatchString configSection ''private = file:///tmp/good.pem'' = False \<and>
   MatchString configLine ''private = file:///tmp/good.pem'' = True \<and>
   line_key ''private = file:///tmp/good.pem'' = ''private'' \<and>
   line_val ''private = file:///tmp/good.pem'' = ''file:///tmp/good.pem''"
  by code_simp

lemma ex_line_good_certificate:
  "MatchString commentLine ''certificate = /tmp/good.crt'' = False \<and>
   MatchString blankLine ''certificate = /tmp/good.crt'' = False \<and>
   MatchString configSection ''certificate = /tmp/good.crt'' = False \<and>
   MatchString configLine ''certificate = /tmp/good.crt'' = True \<and>
   line_key ''certificate = /tmp/good.crt'' = ''certificate'' \<and>
   line_val ''certificate = /tmp/good.crt'' = ''/tmp/good.crt''"
  by code_simp

lemma ex_line_pkcs11:
  "MatchString commentLine ''private = pkcs11://'' = False \<and>
   MatchString blankLine ''private = pkcs11://'' = False \<and>
   MatchString configSection ''private = pkcs11://'' = False \<and>
   MatchString configLine ''private = pkcs11://'' = True \<and>
   line_key ''private = pkcs11://'' = ''private'' \<and>
   line_val ''private = pkcs11://'' = ''pkcs11://''"
  by code_simp

lemma ex_line_module:
  "MatchString commentLine ''module = /usr/lib/hsm.so'' = False \<and>
   MatchString blankLine ''module = /usr/lib/hsm.so'' = False \<and>
   MatchString configSection ''module = /usr/lib/hsm.so'' = False \<and>
   MatchString configLine ''module = /usr/lib/hsm.so'' = True \<and>
   line_key ''module = /usr/lib/hsm.so'' = ''module'' \<and>
   line_val ''module = /usr/lib/hsm.so'' = ''/usr/lib/hsm.so''"
  by code_simp

lemma ex_line_token_label:
  "MatchString commentLine ''token_label = ca'' = False \<and>
   MatchString blankLine ''token_label = ca'' = False \<and>
   MatchString configSection ''token_label = ca'' = False \<and>
   MatchString configLine ''token_label = ca'' = True \<and>
   line_key ''token_label = ca'' = ''token_label'' \<and>
   line_val ''token_label = ca'' = ''ca''"
  by code_simp

lemma ex_long_map:
  "ParseToRawMap slip_env ''/etc/long.conf''
     = Returns ([(''a'', [''private'' \<mapsto> ''file:///tmp/good.pem'',
                          ''certificate'' \<mapsto> ''/tmp/good.crt'',
                          ''config'' \<mapsto> ''/tmp/policy.json''])], None)"
  unfolding ParseToRawMap_def
  apply (simp add: slip_env_def slip_files_def example_env_def del: append.simps)
  apply (simp only: ex_long_lines)
  apply (simp add: ex_line_a ex_line_good_private ex_line_good_certificate ex_line_config
      SectionInConfig_def Let_def)
  done

lemma ex_hsm_map:
  "ParseToRawMap slip_env ''/etc/hsm.conf''
     = Returns ([(''hsm'', [''private'' \<mapsto> ''pkcs11://'',
                            ''certificate'' \<mapsto> ''/tmp/cert.txt'',
                            ''config'' \<mapsto> ''/tmp/policy.json'',
                            ''module'' \<mapsto> ''/usr/lib/hsm.so'',
                            ''token_label'' \<mapsto> ''ca''])], None)"
  unfolding ParseToRawMap_def
  apply (simp add: slip_env_def slip_files_def example_env_def del: append.simps)
  apply (simp only: ex_hsm_lines)
  apply (simp add: ex_line_hsm ex_line_pkcs11 ex_line_certificate ex_line_config ex_line_module
      ex_line_token_label SectionInConfig_def Let_def)
  done

lemma ex_malformed_line: "malformed ''this line is malformed''"
  by code_simp

text \<open>
  Claim C6. \<open>Parse\<close> is not all or nothing at two inputs. In \<open>/etc/long.conf\<close> the
  scanner stops at the line of 65536 characters and \<open>ParseToRawMap\<close> never asks it
  for its error: the malformed line and the section \<open>b\<close>, which cannot load, are never
  read, and \<open>Parse\<close> returns a root list that holds the root \<open>a\<close> alone, with a nil
  error. In \<open>/etc/hsm.conf\<close> the only root fails to load by the nil dereference of the
  \<open>pkcs11\<close> case: \<open>Parse\<close> panics after the certificate file is read and returns
  no error.
\<close>

theorem Parse_not_all_or_nothing:
  "os_Open slip_env ''/etc/long.conf''
     = Inr (join_lines
             ([''[a]'', ''private = file:///tmp/good.pem'', ''certificate = /tmp/good.crt'',
               ''config = /tmp/policy.json'']
              @ replicate 65536 CHR ''#'' # [''this line is malformed'', ''[b]''])) \<and>
   malformed ''this line is malformed'' \<and>
   LoadRoot slip_env Map.empty = ([], Returns (Inl ErrMissingPrivateKey)) \<and>
   snd (Parse slip_env ''/etc/long.conf'')
     = Returns (Inr [(''a'', \<lparr>PrivateKey = PrivateKeyHandle 1, Certificate = example_certificate,
                              Config = Some (SigningHandle 0), ACL = None, DB = None\<rparr>)]) \<and>
   Parse slip_env ''/etc/hsm.conf''
     = ([Logf log_level.Info ''PKCS11 PIN for token %s is not specified in config; please enter it on PIN pad if available'' [''ca''],
         Call_ReadFile ''/tmp/cert.txt''],
        Panics ''invalid memory address or nil pointer dereference'')"
proof -
  have 1: "os_Open slip_env ''/etc/long.conf''
     = Inr (join_lines
             ([''[a]'', ''private = file:///tmp/good.pem'', ''certificate = /tmp/good.crt'',
               ''config = /tmp/policy.json'']
              @ replicate 65536 CHR ''#'' # [''this line is malformed'', ''[b]'']))"
    by (simp add: slip_env_def slip_files_def del: append.simps)
  have 2: "LoadRoot slip_env Map.empty = ([], Returns (Inl ErrMissingPrivateKey))"
    by (simp add: LoadRoot_def ret_def)
  have 3: "snd (Parse slip_env ''/etc/long.conf'')
     = Returns (Inr [(''a'', \<lparr>PrivateKey = PrivateKeyHandle 1, Certificate = example_certificate,
                              Config = Some (SigningHandle 0), ACL = None, DB = None\<rparr>)])"
    by (simp add: Parse_def ex_long_map)
      (simp add: slip_env_def slip_files_def example_env_def example_url_Parse_def LoadRoot_def
        parsePrivateKeySpec_def key_from_file_def parse_pem_then_der_def and_then_def
        index_map_def Let_def)
  have 4: "Parse slip_env ''/etc/hsm.conf''
     = ([Logf log_level.Info ''PKCS11 PIN for token %s is not specified in config; please enter it on PIN pad if available'' [''ca''],
         Call_ReadFile ''/tmp/cert.txt''],
        Panics ''invalid memory address or nil pointer dereference'')"
    by (simp add: Parse_def ex_hsm_map)
      (simp add: slip_env_def slip_files_def example_env_def example_url_Parse_def LoadRoot_def
        parsePrivateKeySpec_def key_from_pkcs11_def and_then_def index_map_def Let_def
        emit_def ret_def)
  show ?thesis using 1 2 3 4 ex_malformed_line by blast
qed

section \<open>Properties of remote.go\<close>

lemma ex_serial: "big_Int_String 4096 = ''4096'' \<and> hex_EncodeToString [CHR 0x01, CHR 0xAB] = ''01ab''"
  by code_simp

text \<open>
  Claim C1. On a signer with a database accessor, whenever \<open>Sign\<close> calls
  \<open>InsertCertificate\<close> and the insert fails, \<open>Sign\<close> returns that error and a nil
  certificate: the bytes the remote CA issued do not reach the caller.
\<close>

theorem Sign_insert_failure:
  assumes "dbAccessor s = Some dba"
    and "Call_InsertCertificate dba certRecord \<in> set (fst (Sign env s req))"
    and "InsertCertificate env dba certRecord = Some err"
  shows "snd (Sign env s req) = Returns (None, Some (Foreign err))"
  using assms
  by (auto simp: Sign_def remoteOp_def Let_def
      split: sum.splits option.splits response.splits if_splits prod.splits)

lemma example_Sign_trace:
  "fst (Sign example_remote_env example_signer \<lparr>Label = ''primary'', Profile = ''server'', Payload = ''csr''\<rparr>)
     = [Call_SetReqModifier (RemoteHandle 0) None,
        Call_AuthSign (RemoteHandle 0) ''request as JSON'' None (ProviderHandle 1),
        Call_InsertCertificate (AccessorHandle 0)
          \<lparr>Serial = ''4096'', Subject_rec = ''CN=example'', AKI = ''01ab'', CALabel = ''primary'',
           CAProfile = ''server'', Status = ''good'', Expiry = 2000000000,
           PEM = ''PEM of the example certificate'', Request = ''request as JSON''\<rparr>]"
  by (simp add: Sign_def remoteOp_def example_remote_env_def example_signer_def Policy_def
      example_certificate_def ex_serial)

theorem Sign_insert_failure_witness:
  "snd (Sign example_remote_env example_signer
          \<lparr>Label = ''primary'', Profile = ''server'', Payload = ''csr''\<rparr>)
     = Returns (None, Some (Foreign (ExtError ''database is locked'')))"
proof -
  have 1: "dbAccessor example_signer = Some (AccessorHandle 0)"
    by (simp add: example_signer_def)
  have 3: "InsertCertificate example_remote_env (AccessorHandle 0) r = Some (ExtError ''database is locked'')" for r
    by (simp add: example_remote_env_def)
  show ?thesis
    using Sign_insert_failure [OF 1 _ 3, of _ "\<lparr>Label = ''primary'', Profile = ''server'', Payload = ''csr''\<rparr>"]
      example_Sign_trace
    by simp
qed

text \<open>
  Claim C2. No call that \<open>Info\<close> makes is an authenticated sign call or a sign call.
  When the request marshals, the profile resolves and the server is reachable, \<open>Info\<close>
  sets the request modifier and makes the plain info call with the marshalled request,
  whatever \<open>RemoteProvider\<close> the profile holds, and returns the info response or the
  error of that call.
\<close>

theorem Info_no_auth:
  "(\<forall>ev \<in> set (fst (Info env s req)).
      (\<forall>srv d tok pr. ev \<noteq> Call_AuthSign srv d tok pr) \<and> (\<forall>srv d. ev \<noteq> Call_Sign srv d)) \<and>
   (json_Marshal env (InfoReq req) = Inr jsonData \<and>
    signer_Profile env (policy s) (Profile_info req) = Inr p \<and>
    NewServerTLS env (RemoteServer p) (CreateTLSConfig env (RemoteCAs p) (ClientCert p)) = Some server
    \<longrightarrow> fst (Info env s req) = [Call_SetReqModifier server (reqModifier s), Call_Info server jsonData] \<and>
        snd (Info env s req)
          = (case server_Info env server (reqModifier s) jsonData of
               Inl err \<Rightarrow> (None, Some (Foreign err))
             | Inr resp \<Rightarrow> (Some resp, None)))"
  by (auto simp: Info_def remoteOp_def Let_def Policy_def
      split: sum.splits option.splits response.splits if_splits prod.splits)

theorem Info_no_auth_witness:
  "signer_Profile example_remote_env (policy example_signer) ''server''
     = Inr \<lparr>RemoteServer = ''ca.example.org'', RemoteCAs = None, ClientCert = None,
            RemoteProvider = Some (ProviderHandle 1)\<rparr> \<and>
   Info example_remote_env example_signer \<lparr>Label_info = ''primary'', Profile_info = ''server''\<rparr>
     = ([Call_SetReqModifier (RemoteHandle 0) None, Call_Info (RemoteHandle 0) ''request as JSON''],
        (Some (InfoRespHandle 0), None))"
  using Info_no_auth [of example_remote_env example_signer
      "\<lparr>Label_info = ''primary'', Profile_info = ''server''\<rparr>" "''request as JSON''"
      "\<lparr>RemoteServer = ''ca.example.org'', RemoteCAs = None, ClientCert = None,
            RemoteProvider = Some (ProviderHandle 1)\<rparr>" "RemoteHandle 0"]
  by (simp add: example_remote_env_def example_signer_def prod_eq_iff)

text \<open>
  When the certificate the remote CA returned does not parse, so that
  \<open>helpers.ParseCertificatePEM\<close> returns a nil certificate with its error, \<open>Sign\<close>
  returns the bytes if no database accessor is set and panics if one is set.
\<close>

lemma Sign_nil_certificate:
  assumes "remoteOp env s (SignReq req) (Profile req) ''sign'' = (t, Inr (RespBytes cert))"
    and "helpers_ParseCertificatePEM env cert = (None, Some err)"
  shows "snd (Sign env s req) =
           (case dbAccessor s of
              None \<Rightarrow> Returns (Some cert, None)
            | Some dba \<Rightarrow> Panics ''invalid memory address or nil pointer dereference'')"
  using assms
  by (auto simp: Sign_def remoteOp_def Let_def
      split: sum.splits option.splits if_splits)

text \<open>
  Claim C3. The claim has \<open>Sign\<close> go on when the bytes the remote CA returned do not
  parse as a certificate, also when a database accessor is set and the record is built
  from the result of the parse. At this input it does not: the remote CA answers the sign
  call with bytes that are no certificate, the parse error is dropped, and with the
  accessor set \<open>Sign\<close> panics when it reads \<open>parsedCert.SerialNumber\<close>, before any
  record is built or inserted. With no accessor set the bytes are returned.
\<close>

theorem Sign_unparsable_certificate:
  "Sign example_remote_env example_signer \<lparr>Label = ''primary'', Profile = ''garbled'', Payload = ''csr''\<rparr>
     = ([Call_SetReqModifier (RemoteHandle 1) None, Call_Sign (RemoteHandle 1) ''request as JSON''],
        Panics ''invalid memory address or nil pointer dereference'') \<and>
   Sign example_remote_env (SetDBAccessor example_signer None)
        \<lparr>Label = ''primary'', Profile = ''garbled'', Payload = ''csr''\<rparr>
     = ([Call_SetReqModifier (RemoteHandle 1) None, Call_Sign (RemoteHandle 1) ''request as JSON''],
        Returns (Some ''no certificate here'', None))"
  by (simp add: Sign_def remoteOp_def example_remote_env_def example_signer_def Policy_def
      SetDBAccessor_def)

section \<open>Properties of the line patterns\<close>

subsection \<open>How the matcher searches\<close>

lemma first_some_None: "(\<forall>x \<in> set xs. f x = None) \<Longrightarrow> first_some (map f xs) = None"
  by (induction xs) auto

lemma first_some_unique:
  "n0 \<in> set ns \<Longrightarrow> f n0 = Some y \<Longrightarrow> (\<forall>n \<in> set ns. n \<noteq> n0 \<longrightarrow> f n = None) \<Longrightarrow>
   first_some (map f ns) = Some y"
proof (induction ns)
  case Nil
  then show ?case by simp
next
  case (Cons a ns)
  show ?case
  proof (cases "a = n0")
    case True
    then show ?thesis using Cons.prems by simp
  next
    case False
    then have "f a = None" and "n0 \<in> set ns" using Cons.prems by auto
    then show ?thesis using Cons by simp
  qed
qed

lemma drop_in_takeWhile:
  assumes "n < length (takeWhile P s)"
  shows "\<exists>c t. drop n s = c # t \<and> P c"
proof -
  have n: "n < length s" using assms length_takeWhile_le [of P s] by linarith
  have "takeWhile P s ! n = s ! n" using assms by (rule takeWhile_nth)
  moreover have "P (takeWhile P s ! n)" using assms nth_mem set_takeWhileD by metis
  ultimately have "P (s ! n)" by simp
  then show ?thesis using Cons_nth_drop_Suc [OF n] by metis
qed

lemma caps_plain [simp]:
  "caps (One P) t = (\<lambda>gs. gs)" "caps (Star P) t = (\<lambda>gs. gs)" "caps (Plus P) t = (\<lambda>gs. gs)"
  by (rule ext, simp)+

lemma caps_group [simp]: "caps (Group a) t = (#) t"
  by (rule ext) simp

lemma map_option_ident [simp]: "map_option (\<lambda>gs. gs) x = x"
  by (cases x) auto

lemma first_some_single [simp]: "first_some [x] = x"
  by (cases x) auto

lemma drop_len_takeWhile [simp]: "drop (length (takeWhile P s)) s = dropWhile P s"
  by (simp add: dropWhile_eq_drop)

lemma take_len_takeWhile [simp]: "take (length (takeWhile P s)) s = takeWhile P s"
  by (rule takeWhile_eq_take [symmetric])

lemma match_One:
  "match (One P # r) s = (case s of [] \<Rightarrow> None | c # t \<Rightarrow> if P c then match r t else None)"
  by (cases s) auto

lemma match_Star_det:
  assumes "\<And>c t. P c \<Longrightarrow> match r (c # t) = None"
  shows "match (Star P # r) s = match r (dropWhile P s)"
proof -
  let ?k = "length (takeWhile P s)"
  have "match r (drop n s) = None" if "n \<in> set (rev [0..<?k])" for n
    using that drop_in_takeWhile [of n P s] assms by auto
  then have "first_some (map (\<lambda>n. match r (drop n s)) (rev [0..<?k])) = None"
    by (intro first_some_None) auto
  then have "match (Star P # r) s = match r (drop ?k s)"
    by (cases "match r (drop ?k s)") auto
  then show ?thesis by simp
qed

lemma match_Star_first:
  assumes "match r (dropWhile P s) = Some gs"
  shows "match (Star P # r) s = Some gs"
  using assms by simp

lemma match_GroupStar_first:
  assumes "match r (dropWhile P s) = Some gs"
  shows "match (Group (Star P) # r) s = Some (takeWhile P s # gs)"
  using assms by simp

lemma match_GroupPlus_det:
  assumes "\<And>c t. P c \<Longrightarrow> match r (c # t) = None"
  shows "match (Group (Plus P) # r) s =
           (if takeWhile P s = [] then None
            else map_option ((#) (takeWhile P s)) (match r (dropWhile P s)))"
proof (cases "takeWhile P s = []")
  case True
  then show ?thesis by simp
next
  case False
  let ?k = "length (takeWhile P s)"
  have k: "0 < ?k" using False by simp
  then have u: "[Suc 0..<Suc ?k] = [Suc 0..<?k] @ [?k]" by (simp add: Suc_le_eq)
  have "match r (drop n s) = None" if "n \<in> set (rev [1..<?k])" for n
    using that drop_in_takeWhile [of n P s] assms by auto
  then have "first_some (map (\<lambda>n. map_option ((#) (take n s)) (match r (drop n s))) (rev [1..<?k])) = None"
    by (intro first_some_None) auto
  then have "match (Group (Plus P) # r) s = map_option ((#) (take ?k s)) (match r (drop ?k s))"
    using k by (cases "match r (drop ?k s)") (auto simp del: upt_Suc simp add: u)
  then show ?thesis using False by simp
qed

lemma match_end_Star: "match [Star P] s = (if list_all P s then Some [] else None)"
proof -
  have "match [Star P] s = match [] (dropWhile P s)"
    by (rule match_Star_det) simp
  then show ?thesis by (auto simp: dropWhile_eq_Nil_conv list_all_iff)
qed

lemma space_not_word: "is_space c \<Longrightarrow> \<not> is_word c"
  by (auto simp: is_space_def is_word_def)

lemma space_not_quote: "is_space c \<Longrightarrow> \<not> is_quote c"
  by (auto simp: is_space_def is_quote_def)

lemma chr_facts [simp]:
  "\<not> is_space CHR ''[''" "\<not> is_space CHR '']''" "\<not> is_space CHR ''=''" "\<not> is_space CHR ''#''"
  "\<not> is_word CHR ''[''" "\<not> is_word CHR '']''" "\<not> is_word CHR ''=''" "\<not> is_word CHR ''#''"
  by (simp_all add: is_space_def is_word_def)

lemma is_chr_iff [simp]: "is_chr a c = (c = a)"
  by (simp add: is_chr_def)

text \<open>What cannot start a match.\<close>

lemma nf_GroupPlus: "\<not> P c \<Longrightarrow> match (Group (Plus P) # r) (c # t) = None"
  by simp

lemma nf_One: "\<not> P c \<Longrightarrow> match (One P # r) (c # t) = None"
  by simp

lemma nf_Star_One: "\<not> P c \<Longrightarrow> \<not> Q c \<Longrightarrow> match (Star P # One Q # r) (c # t) = None"
  by simp

lemma nf_end: "match [] (c # t) = None"
  by simp

declare match.simps(2) [simp del]

lemma match_configSection:
  "match configSection l =
     (case dropWhile is_space l of
        [] \<Rightarrow> None
      | c # t \<Rightarrow>
          if c = CHR ''[''
          then (if takeWhile is_word (dropWhile is_space t) = [] then None
                else map_option ((#) (takeWhile is_word (dropWhile is_space t)))
                       (case dropWhile is_space (dropWhile is_word (dropWhile is_space t)) of
                          [] \<Rightarrow> None
                        | d # t' \<Rightarrow>
                            if d = CHR '']'' then (if list_all is_space t' then Some [] else None)
                            else None))
          else None)"
proof -
  have 1: "match configSection l
      = match [One (is_chr CHR ''[''), Star is_space, Group (Plus is_word),
               Star is_space, One (is_chr CHR '']''), Star is_space] (dropWhile is_space l)"
    unfolding configSection_def by (rule match_Star_det) (auto simp: match_One)
  have 2: "match [Star is_space, Group (Plus is_word), Star is_space, One (is_chr CHR '']''), Star is_space] s
      = match [Group (Plus is_word), Star is_space, One (is_chr CHR '']''), Star is_space] (dropWhile is_space s)" for s
    by (rule match_Star_det) (simp add: nf_GroupPlus space_not_word)
  have 3: "match [Group (Plus is_word), Star is_space, One (is_chr CHR '']''), Star is_space] s
      = (if takeWhile is_word s = [] then None
         else map_option ((#) (takeWhile is_word s))
                (match [Star is_space, One (is_chr CHR '']''), Star is_space] (dropWhile is_word s)))" for s
    by (rule match_GroupPlus_det) (rule nf_Star_One, auto dest: space_not_word)
  have 4: "match [Star is_space, One (is_chr CHR '']''), Star is_space] s
      = match [One (is_chr CHR '']''), Star is_space] (dropWhile is_space s)" for s
    by (rule match_Star_det) (auto simp: match_One)
  show ?thesis
    by (simp add: 1 2 3 4 match_One match_end_Star cong: list.case_cong if_cong)
qed

lemma match_commentLine:
  "match commentLine l =
     (case l of [] \<Rightarrow> None
      | c # t \<Rightarrow> if c = CHR ''#'' then (if list_all is_dot t then Some [] else None) else None)"
  by (simp add: commentLine_def match_One match_end_Star cong: list.case_cong if_cong)

lemma match_blankLine: "match blankLine l = (if list_all is_space l then Some [] else None)"
  by (simp add: blankLine_def match_end_Star)

subsection \<open>The patterns read from left to right\<close>

lemma rstrip_snoc:
  assumes "\<not> is_space c" and "list_all is_space t"
  shows "rstrip (p @ c # t) = p @ [c]"
proof -
  have "dropWhile is_space (rev t @ c # rev p) = c # rev p"
    using assms by (simp add: dropWhile_append3 list_all_iff)
  then show ?thesis by (simp add: rstrip_def)
qed

lemma rstrip_decomp: "\<exists>ws. u = rstrip u @ ws \<and> list_all is_space ws"
proof -
  have "rev u = takeWhile is_space (rev u) @ dropWhile is_space (rev u)" by simp
  then have "u = rev (dropWhile is_space (rev u)) @ rev (takeWhile is_space (rev u))"
    by (metis rev_append rev_rev_ident)
  moreover have "list_all is_space (rev (takeWhile is_space (rev u)))"
    by (auto simp: list_all_iff dest: set_takeWhileD)
  ultimately show ?thesis unfolding rstrip_def by blast
qed

lemma match_quote_end:
  "match [One is_quote, Star is_space] t =
     (case t of [] \<Rightarrow> None
      | c # t' \<Rightarrow> if is_quote c then (if list_all is_space t' then Some [] else None) else None)"
  by (simp add: match_One match_end_Star cong: list.case_cong if_cong)

lemma quote_end_rstrip:
  assumes "match [One is_quote, Star is_space] (drop n u) \<noteq> None" and "n \<le> length u"
  shows "rstrip u = take n u @ [last (rstrip u)] \<and> is_quote (last (rstrip u))"
proof -
  from assms(1) obtain c t' where d: "drop n u = c # t'" and q: "is_quote c"
    and sp: "list_all is_space t'"
    by (auto simp: match_quote_end split: list.splits if_splits)
  have "u = take n u @ c # t'" using d by (metis append_take_drop_id)
  then have "rstrip u = take n u @ [c]"
    using rstrip_snoc [of c t' "take n u"] q sp space_not_quote by metis
  then show ?thesis using q by simp
qed

lemma match_quoted_body:
  assumes "CHR 0x0A \<notin> set u"
  shows "match [Group (Star is_dot), One is_quote, Star is_space] u =
           (if rstrip u \<noteq> [] \<and> is_quote (last (rstrip u)) then Some [butlast (rstrip u)] else None)"
proof -
  let ?r = "[One is_quote, Star is_space]"
  let ?g = "\<lambda>n. map_option ((#) (take n u)) (match ?r (drop n u))"
  let ?ns = "rev [0..<Suc (length u)]"
  have tw: "takeWhile is_dot u = u"
    using assms by (auto simp: takeWhile_eq_all_conv is_dot_def)
  have m: "match [Group (Star is_dot), One is_quote, Star is_space] u = first_some (map ?g ?ns)"
    by (simp add: match.simps(2) tw del: upt_Suc)
  show ?thesis
  proof (cases "rstrip u \<noteq> [] \<and> is_quote (last (rstrip u))")
    case True
    let ?b = "rstrip u"
    obtain n0 where n0: "n0 = length ?b - 1" by simp
    obtain ws where u: "u = ?b @ ws" and ws: "list_all is_space ws"
      using rstrip_decomp by blast
    have b: "?b = butlast ?b @ [last ?b]" using True by simp
    have len: "length (butlast ?b) = n0" using n0 by simp
    have u2: "u = butlast ?b @ last ?b # ws" using u b by (metis append_Cons append_Nil append.assoc)
    have dr: "drop n0 u = last ?b # ws"
      using u2 len by (metis append_eq_conv_conj)
    have tk: "take n0 u = butlast ?b"
      using u2 len by (metis append_eq_conv_conj)
    have g0: "?g n0 = Some [butlast ?b]"
      using True ws by (simp add: dr tk match_quote_end)
    have "n0 \<le> length u" using u n0 by (metis diff_le_self le_add1 le_trans length_append)
    then have mem: "n0 \<in> set ?ns" by (simp del: upt_Suc)
    have uniq: "\<forall>n \<in> set ?ns. n \<noteq> n0 \<longrightarrow> ?g n = None"
    proof (intro ballI impI)
      fix n assume n: "n \<in> set ?ns" and ne: "n \<noteq> n0"
      show "?g n = None"
      proof (rule ccontr)
        assume "?g n \<noteq> None"
        then have "match ?r (drop n u) \<noteq> None" by auto
        moreover have nl: "n \<le> length u" using n by (simp del: upt_Suc)
        ultimately have "rstrip u = take n u @ [last (rstrip u)]"
          using quote_end_rstrip by blast
        then have "length (rstrip u) = Suc n" using nl by (metis length_append_singleton length_take min.absorb2)
        then show False using ne n0 by simp
      qed
    qed
    have "first_some (map ?g ?ns) = Some [butlast ?b]"
      by (rule first_some_unique [OF mem g0 uniq])
    then show ?thesis using True m by simp
  next
    case False
    have "\<forall>n \<in> set ?ns. ?g n = None"
    proof
      fix n assume n: "n \<in> set ?ns"
      show "?g n = None"
      proof (rule ccontr)
        assume "?g n \<noteq> None"
        then have "match ?r (drop n u) \<noteq> None" by auto
        moreover have nl: "n \<le> length u" using n by (simp del: upt_Suc)
        ultimately have "rstrip u = take n u @ [last (rstrip u)] \<and> is_quote (last (rstrip u))"
          using quote_end_rstrip by blast
        then show False using False by (metis snoc_eq_iff_butlast)
      qed
    qed
    then have "first_some (map ?g ?ns) = None" by (rule first_some_None)
    then show ?thesis using False m by simp
  qed
qed

lemma match_value_tail:
  assumes "CHR 0x0A \<notin> set u"
  shows "match [Star is_space, Group (Star is_dot), Star is_space] u = Some [dropWhile is_space u]"
proof -
  let ?v = "dropWhile is_space u"
  have "CHR 0x0A \<notin> set ?v" using assms by (auto dest: set_dropWhileD)
  then have tw: "takeWhile is_dot ?v = ?v" and dw: "dropWhile is_dot ?v = []"
    by (auto simp: takeWhile_eq_all_conv dropWhile_eq_Nil_conv is_dot_def)
  have "match [Star is_space] (dropWhile is_dot ?v) = Some []"
    by (simp add: dw match_end_Star)
  then have "match [Group (Star is_dot), Star is_space] ?v = Some [takeWhile is_dot ?v]"
    by (rule match_GroupStar_first)
  then show ?thesis using tw by (simp add: match_Star_first)
qed

text \<open>The two key/value patterns up to the equals sign.\<close>

lemma match_key_equals:
  "match (Star is_space # Group (Plus is_word) # Star is_space # One (is_chr CHR ''='') # r) l =
     (if takeWhile is_word (dropWhile is_space l) = [] then None
      else map_option ((#) (takeWhile is_word (dropWhile is_space l)))
             (case dropWhile is_space (dropWhile is_word (dropWhile is_space l)) of
                [] \<Rightarrow> None
              | d # u \<Rightarrow> if d = CHR ''='' then match r u else None))"
proof -
  have 1: "match (Star is_space # Group (Plus is_word) # r1) s
      = match (Group (Plus is_word) # r1) (dropWhile is_space s)" for s r1
    by (rule match_Star_det) (simp add: nf_GroupPlus space_not_word)
  have 2: "match (Group (Plus is_word) # Star is_space # One (is_chr CHR ''='') # r1) s
      = (if takeWhile is_word s = [] then None
         else map_option ((#) (takeWhile is_word s))
                (match (Star is_space # One (is_chr CHR ''='') # r1) (dropWhile is_word s)))" for s r1
    by (rule match_GroupPlus_det) (rule nf_Star_One, auto dest: space_not_word)
  have 3: "match (Star is_space # One (is_chr CHR ''='') # r1) s
      = match (One (is_chr CHR ''='') # r1) (dropWhile is_space s)" for s r1
    by (rule match_Star_det) (auto simp: match_One)
  show ?thesis
    by (simp add: 1 2 3 match_One cong: list.case_cong if_cong)
qed

lemma match_configLine:
  assumes "CHR 0x0A \<notin> set l"
  shows "match configLine l =
     (if takeWhile is_word (dropWhile is_space l) = [] then None
      else (case dropWhile is_space (dropWhile is_word (dropWhile is_space l)) of
              [] \<Rightarrow> None
            | d # u \<Rightarrow>
                if d = CHR ''=''
                then Some [takeWhile is_word (dropWhile is_space l), dropWhile is_space u]
                else None))"
proof (cases "dropWhile is_space (dropWhile is_word (dropWhile is_space l))")
  case Nil
  show ?thesis unfolding configLine_def match_key_equals Nil by simp
next
  case (Cons d u)
  have "set (d # u) \<subseteq> set l"
    using Cons set_dropWhileD by (metis subsetI)
  then have "CHR 0x0A \<notin> set u" using assms by auto
  then show ?thesis
    unfolding configLine_def match_key_equals Cons by (simp add: match_value_tail)
qed

lemma match_quotedConfigLine:
  assumes "CHR 0x0A \<notin> set l"
  shows "match quotedConfigLine l =
     (if takeWhile is_word (dropWhile is_space l) = [] then None
      else (case dropWhile is_space (dropWhile is_word (dropWhile is_space l)) of
              [] \<Rightarrow> None
            | d # u \<Rightarrow>
                if d = CHR ''=''
                then (case dropWhile is_space u of
                        [] \<Rightarrow> None
                      | q # v \<Rightarrow>
                          if is_quote q \<and> rstrip v \<noteq> [] \<and> is_quote (last (rstrip v))
                          then Some [takeWhile is_word (dropWhile is_space l), butlast (rstrip v)]
                          else None)
                else None))"
proof (cases "dropWhile is_space (dropWhile is_word (dropWhile is_space l))")
  case Nil
  show ?thesis unfolding quotedConfigLine_def match_key_equals Nil by simp
next
  case (Cons d u)
  have 4: "match [Star is_space, One is_quote, Group (Star is_dot), One is_quote, Star is_space] s
      = match [One is_quote, Group (Star is_dot), One is_quote, Star is_space] (dropWhile is_space s)" for s
    by (rule match_Star_det) (auto simp: match_One dest: space_not_quote)
  show ?thesis
  proof (cases "dropWhile is_space u")
    case Nil
    show ?thesis
      unfolding quotedConfigLine_def match_key_equals Cons 4 by (simp only: Nil match_One list.case if_cancel option.map)
  next
    case inner: (Cons q v)
    have "set (d # u) \<subseteq> set l"
      using Cons set_dropWhileD by (metis subsetI)
    moreover have "set (q # v) \<subseteq> set u"
      using inner set_dropWhileD by (metis subsetI)
    ultimately have "CHR 0x0A \<notin> set v" using assms by auto
    then show ?thesis
      unfolding quotedConfigLine_def match_key_equals Cons 4
      by (simp add: inner match_One match_quoted_body)
  qed
qed

declare dropWhile_eq_Nil_conv [simp del]

lemma rstrip_Cons: "\<not> is_space q \<Longrightarrow> rstrip (q # v) = q # rstrip v"
  by (simp add: rstrip_def dropWhile_append dropWhile_eq_Nil_conv)

lemma rstrip_Nil [simp]: "rstrip [] = []"
  by (simp add: rstrip_def)

lemma spec_value_Cons:
  assumes "\<not> is_space q"
  shows "spec_value (q # v) =
           (if is_quote q \<and> rstrip v \<noteq> [] \<and> is_quote (last (rstrip v))
            then butlast (rstrip v) else q # v)"
  using assms by (auto simp: spec_value_def rstrip_Cons Let_def Suc_le_eq)

lemma spec_value_Nil [simp]: "spec_value [] = []"
  by (simp add: spec_value_def)

text \<open>A key/value line: what the two patterns make of it.\<close>

lemma key_value_line:
  assumes nl: "CHR 0x0A \<notin> set l"
    and key: "takeWhile is_word (dropWhile is_space l) \<noteq> []"
    and eq: "dropWhile is_space (dropWhile is_word (dropWhile is_space l)) = CHR ''='' # u"
  shows "MatchString configLine l"
    and "line_key l = takeWhile is_word (dropWhile is_space l)"
    and "line_val l = spec_value (dropWhile is_space u)"
    and "MatchString quotedConfigLine l =
           (case dropWhile is_space u of
              [] \<Rightarrow> False
            | q # v \<Rightarrow> is_quote q \<and> rstrip v \<noteq> [] \<and> is_quote (last (rstrip v)))"
proof -
  have c: "match configLine l = Some [takeWhile is_word (dropWhile is_space l), dropWhile is_space u]"
    using key by (simp add: match_configLine [OF nl] eq)
  have q: "match quotedConfigLine l =
      (case dropWhile is_space u of
         [] \<Rightarrow> None
       | q # v \<Rightarrow>
           if is_quote q \<and> rstrip v \<noteq> [] \<and> is_quote (last (rstrip v))
           then Some [takeWhile is_word (dropWhile is_space l), butlast (rstrip v)]
           else None)"
    using key by (simp add: match_quotedConfigLine [OF nl] eq)
  show "MatchString configLine l" by (simp add: MatchString_def c)
  show "MatchString quotedConfigLine l =
           (case dropWhile is_space u of
              [] \<Rightarrow> False
            | q # v \<Rightarrow> is_quote q \<and> rstrip v \<noteq> [] \<and> is_quote (last (rstrip v)))"
    by (cases "dropWhile is_space u") (simp_all add: MatchString_def q)
  show "line_key l = takeWhile is_word (dropWhile is_space l)"
    by (cases "dropWhile is_space u")
      (simp_all add: line_key_def line_regex_def MatchString_def ReplaceAllString_def c q)
  show "line_val l = spec_value (dropWhile is_space u)"
  proof (cases "dropWhile is_space u")
    case Nil
    show ?thesis
      by (simp add: line_val_def line_regex_def MatchString_def ReplaceAllString_def c q Nil)
  next
    case (Cons q' v)
    then have "\<not> is_space q'" using hd_dropWhile [of is_space u] by (metis list.sel(1) list.distinct(1))
    then show ?thesis
      by (simp add: line_val_def line_regex_def MatchString_def ReplaceAllString_def c q Cons
          spec_value_Cons)
  qed
qed

lemma classify_line:
  assumes "CHR 0x0A \<notin> set line"
  shows "parse_lines cfg currentSection (line # rest) =
     (case spec_classify line of
        Comment \<Rightarrow> parse_lines cfg currentSection rest
      | Blank \<Rightarrow> parse_lines cfg currentSection rest
      | Section name \<Rightarrow>
          parse_lines (if SectionInConfig cfg name then cfg else AList.update name Map.empty cfg)
            name rest
      | KeyValue key val \<Rightarrow>
          (let current1 = (if currentSection = [] then defaultSection else currentSection);
               cfg1 = (if currentSection = [] \<and> \<not> SectionInConfig cfg current1
                       then AList.update current1 Map.empty cfg else cfg)
           in case map_of cfg1 current1 of
                None \<Rightarrow> Panics ''assignment to entry in nil map''
              | Some entries \<Rightarrow>
                  parse_lines (AList.update current1 (entries(key \<mapsto> val)) cfg1) current1 rest)
      | Malformed \<Rightarrow> Returns (cfg, Some (FmtErrorf ''invalid config file'')))"
proof -
  have dot: "list_all is_dot t" if "line = c # t" for c t
    using assms that by (auto simp: list_all_iff is_dot_def)
  have com: "MatchString commentLine line = (line \<noteq> [] \<and> hd line = CHR ''#'')"
    using dot by (cases line) (auto simp: MatchString_def match_commentLine)
  have blank: "MatchString blankLine line = (dropWhile is_space line = [])"
    by (auto simp: MatchString_def match_blankLine list_all_iff dropWhile_eq_Nil_conv)
  show ?thesis
  proof (cases "line \<noteq> [] \<and> hd line = CHR ''#''")
    case True
    then show ?thesis using com by (simp add: spec_classify_def)
  next
    case False
    then have nocom: "\<not> MatchString commentLine line" using com by blast
    have sc: "spec_classify line =
      (case dropWhile is_space line of
        [] \<Rightarrow> Blank
      | c # t \<Rightarrow>
          if c = CHR ''[''
          then (let name = takeWhile is_word (dropWhile is_space t) in
                case dropWhile is_space (dropWhile is_word (dropWhile is_space t)) of
                  [] \<Rightarrow> Malformed
                | d # t' \<Rightarrow>
                    if name \<noteq> [] \<and> d = CHR '']'' \<and> list_all is_space t' then Section name
                    else Malformed)
          else (let key = takeWhile is_word (c # t) in
                case dropWhile is_space (dropWhile is_word (c # t)) of
                  [] \<Rightarrow> Malformed
                | d # u \<Rightarrow>
                    if key \<noteq> [] \<and> d = CHR ''='' then KeyValue key (spec_value (dropWhile is_space u))
                    else Malformed))"
      unfolding spec_classify_def using False by (rule if_not_P)
    show ?thesis
    proof (cases "dropWhile is_space line")
      case Nil
      show ?thesis using nocom by (simp add: sc blank Nil)
    next
      case (Cons c t)
      have noblank: "\<not> MatchString blankLine line" by (simp add: blank Cons)
      show ?thesis
      proof (cases "c = CHR ''[''")
        case True
        have tw: "takeWhile is_word (dropWhile is_space line) = []"
          by (simp add: Cons True)
        have nokv: "\<not> MatchString configLine line"
          by (simp add: MatchString_def match_configLine [OF assms] tw)
        show ?thesis
        proof (cases "dropWhile is_space (dropWhile is_word (dropWhile is_space t))")
          case Nil
          have "\<not> MatchString configSection line"
            by (simp add: MatchString_def match_configSection Cons True Nil)
          then show ?thesis using nocom noblank nokv
            by (simp add: sc Cons True Nil)
        next
          case inner: (Cons d t')
          show ?thesis
          proof (cases "takeWhile is_word (dropWhile is_space t) \<noteq> [] \<and> d = CHR '']'' \<and> list_all is_space t'")
            case good: True
            then have "match configSection line = Some [takeWhile is_word (dropWhile is_space t)]"
              by (simp add: match_configSection Cons inner True)
            then have "MatchString configSection line"
              and "ReplaceAllString configSection line 1 = takeWhile is_word (dropWhile is_space t)"
              by (simp_all add: MatchString_def ReplaceAllString_def)
            then show ?thesis using nocom noblank good
              by (simp add: sc Cons inner True Let_def)
          next
            case bad: False
            then have "\<not> MatchString configSection line"
              by (auto simp: MatchString_def match_configSection Cons inner True)
            then show ?thesis using nocom noblank nokv bad
              by (auto simp: sc Cons inner True Let_def)
          qed
        qed
      next
        case False
        have nosec: "\<not> MatchString configSection line"
          using False by (simp add: MatchString_def match_configSection Cons)
        have sc2: "spec_classify line =
          (let key = takeWhile is_word (dropWhile is_space line) in
           case dropWhile is_space (dropWhile is_word (dropWhile is_space line)) of
             [] \<Rightarrow> Malformed
           | d # u \<Rightarrow>
               if key \<noteq> [] \<and> d = CHR ''='' then KeyValue key (spec_value (dropWhile is_space u))
               else Malformed)"
          unfolding sc Cons using False by (simp only: list.case if_False)
        show ?thesis
        proof (cases "dropWhile is_space (dropWhile is_word (dropWhile is_space line))")
          case Nil
          have "\<not> MatchString configLine line"
            by (simp add: MatchString_def match_configLine [OF assms] Nil)
          then show ?thesis using nocom noblank nosec
            by (simp add: sc2 Nil)
        next
          case inner: (Cons d u)
          show ?thesis
          proof (cases "takeWhile is_word (dropWhile is_space line) \<noteq> [] \<and> d = CHR ''=''")
            case good: True
            have k: "takeWhile is_word (dropWhile is_space line) \<noteq> []" using good by simp
            have e: "dropWhile is_space (dropWhile is_word (dropWhile is_space line)) = CHR ''='' # u"
              using good by (simp add: inner)
            note kv = key_value_line [OF assms k e]
            show ?thesis using nocom noblank nosec good kv(1)
              by (simp add: sc2 inner Let_def kv(2) kv(3))
          next
            case bad: False
            then have "\<not> MatchString configLine line"
              by (auto simp: MatchString_def match_configLine [OF assms] inner)
            then show ?thesis using nocom noblank nosec bad
              by (auto simp: sc2 inner Let_def)
          qed
        qed
      qed
    qed
  qed
qed

subsection \<open>Key/value lines and the classification\<close>

lemma splitLines_no_newline: "l \<in> set (splitLines s) \<Longrightarrow> CHR 0x0A \<notin> set l"
proof (induction s arbitrary: l)
  case Nil
  then show ?case by simp
next
  case (Cons c cs)
  show ?case
  proof (cases "c = CHR 0x0A")
    case True
    then show ?thesis using Cons by auto
  next
    case False
    then show ?thesis using Cons by (cases "splitLines cs") auto
  qed
qed

lemma scanner_lines_no_newline:
  assumes "l \<in> set (scanner_lines text)"
  shows "CHR 0x0A \<notin> set l"
proof -
  from assms obtain r where r: "r \<in> set (splitLines text)" and l: "l = dropCR r"
    by (auto simp: scanner_lines_def dest: set_takeWhileD)
  have "set (dropCR r) \<subseteq> set r"
    by (auto simp: dropCR_def dest: in_set_butlastD)
  then show ?thesis using splitLines_no_newline [OF r] l by auto
qed

lemma key_value_shape:
  assumes "line = ws1 @ key @ ws2 @ CHR ''='' # ws3 @ u"
    and "list_all is_space ws1" and "key \<noteq> []" and "list_all is_word key"
    and "list_all is_space ws2" and "list_all is_space ws3" and "u = [] \<or> \<not> is_space (hd u)"
  shows "takeWhile is_word (dropWhile is_space line) = key"
    and "dropWhile is_space (dropWhile is_word (dropWhile is_space line)) = CHR ''='' # ws3 @ u"
    and "dropWhile is_space (ws3 @ u) = u"
proof -
  have hk: "\<not> is_space (hd key)"
    using assms(3,4) space_not_word by (cases key) (auto simp: list_all_iff)
  have 1: "dropWhile is_space line = key @ ws2 @ CHR ''='' # ws3 @ u"
    using assms(1,2,3) hk by (cases key) (auto simp: list_all_iff dropWhile_append2)
  have nw: "takeWhile is_word (ws2 @ CHR ''='' # ws3 @ u) = []"
    using assms(5) space_not_word by (cases ws2) (auto simp: list_all_iff)
  have nd: "dropWhile is_word (ws2 @ CHR ''='' # ws3 @ u) = ws2 @ CHR ''='' # ws3 @ u"
    using assms(5) space_not_word by (cases ws2) (auto simp: list_all_iff)
  show "takeWhile is_word (dropWhile is_space line) = key"
    using assms(4) nw by (simp add: 1 takeWhile_append2 list_all_iff)
  have 2: "dropWhile is_word (dropWhile is_space line) = ws2 @ CHR ''='' # ws3 @ u"
    using assms(4) nd by (simp add: 1 dropWhile_append2 list_all_iff)
  show "dropWhile is_space (dropWhile is_word (dropWhile is_space line)) = CHR ''='' # ws3 @ u"
    using assms(5) by (simp add: 2 dropWhile_append2 list_all_iff)
  show "dropWhile is_space (ws3 @ u) = u"
    using assms(6,7) by (cases u) (auto simp: dropWhile_append2 list_all_iff dropWhile_eq_Nil_conv)
qed

text \<open>Every line without a newline that the unquoted pattern matches has the shape of a key/value line.\<close>

lemma key_value_line_shape:
  assumes "CHR 0x0A \<notin> set line" and "MatchString configLine line"
  shows "\<exists>ws1 key ws2 ws3 u.
           line = ws1 @ key @ ws2 @ CHR ''='' # ws3 @ u \<and> list_all is_space ws1 \<and> key \<noteq> [] \<and>
           list_all is_word key \<and> list_all is_space ws2 \<and> list_all is_space ws3 \<and>
           (u = [] \<or> \<not> is_space (hd u))"
proof -
  let ?s1 = "dropWhile is_space line"
  let ?s2 = "dropWhile is_word ?s1"
  have k: "takeWhile is_word ?s1 \<noteq> []"
    using assms(2) by (auto simp: MatchString_def match_configLine [OF assms(1)] split: if_splits)
  obtain d u' where e: "dropWhile is_space ?s2 = d # u'" and d: "d = CHR ''=''"
    using assms(2) k
    by (auto simp: MatchString_def match_configLine [OF assms(1)] split: list.splits if_splits)
  have "line = takeWhile is_space line @ ?s1" by simp
  also have "?s1 = takeWhile is_word ?s1 @ ?s2" by simp
  also have "?s2 = takeWhile is_space ?s2 @ dropWhile is_space ?s2" by simp
  also have "dropWhile is_space ?s2 = CHR ''='' # takeWhile is_space u' @ dropWhile is_space u'"
    using e d by simp
  finally have "line = takeWhile is_space line @ takeWhile is_word ?s1 @ takeWhile is_space ?s2
      @ CHR ''='' # takeWhile is_space u' @ dropWhile is_space u'" .
  moreover have "list_all P (takeWhile P xs)" for P :: "char \<Rightarrow> bool" and xs
    by (auto simp: list_all_iff dest: set_takeWhileD)
  moreover have "dropWhile is_space u' = [] \<or> \<not> is_space (hd (dropWhile is_space u'))"
    using hd_dropWhile by blast
  ultimately show ?thesis using k by blast
qed

text \<open>
  Claim C4, as amended. Take a line the scanner delivers that is a key/value line: white
  space, a key, white space, \<open>=\<close>, white space, and then the text \<open>u\<close>, which does
  not start with white space. The unquoted pattern matches it and the key is read. The
  quoted pattern applies exactly when \<open>u\<close> is a quote character, any text, a second
  quote character and white space, where each quote character is \<open>"\<close> or \<open>'\<close> and the
  two need not be the same; the value is then the text between them. Otherwise the value
  is \<open>u\<close> as it stands, quote characters included.
\<close>

theorem quoted_value_fallback:
  assumes "line \<in> set (scanner_lines text)"
    and "line = ws1 @ key @ ws2 @ CHR ''='' # ws3 @ u"
    and "list_all is_space ws1" and "key \<noteq> []" and "list_all is_word key"
    and "list_all is_space ws2" and "list_all is_space ws3" and "u = [] \<or> \<not> is_space (hd u)"
  shows "MatchString configLine line \<and> line_key line = key \<and>
     (\<forall>q1 v q2 ws4.
         u = q1 # v @ q2 # ws4 \<and> is_quote q1 \<and> is_quote q2 \<and> list_all is_space ws4 \<longrightarrow>
         MatchString quotedConfigLine line \<and> line_val line = v) \<and>
     ((\<nexists>q1 v q2 ws4.
         u = q1 # v @ q2 # ws4 \<and> is_quote q1 \<and> is_quote q2 \<and> list_all is_space ws4) \<longrightarrow>
         \<not> MatchString quotedConfigLine line \<and> line_val line = u)"
proof -
  have nl: "CHR 0x0A \<notin> set line" using assms(1) by (rule scanner_lines_no_newline)
  note sh = key_value_shape [OF assms(2-8)]
  have k: "takeWhile is_word (dropWhile is_space line) \<noteq> []" using sh(1) assms(4) by simp
  note kv = key_value_line [OF nl k sh(2)]
  have q: "MatchString quotedConfigLine line =
      (case u of [] \<Rightarrow> False
       | q # v \<Rightarrow> is_quote q \<and> rstrip v \<noteq> [] \<and> is_quote (last (rstrip v)))"
    using kv(4) by (simp add: sh(3))
  have val: "line_val line = spec_value u" using kv(3) by (simp add: sh(3))
  have A: "MatchString quotedConfigLine line \<and> line_val line = v"
    if "u = q1 # v @ q2 # ws4" "is_quote q1" "is_quote q2" "list_all is_space ws4" for q1 v q2 ws4
  proof -
    have r: "rstrip (v @ q2 # ws4) = v @ [q2]"
      using that(3,4) space_not_quote by (intro rstrip_snoc) auto
    have "\<not> is_space q1" using that(2) space_not_quote by auto
    then show ?thesis using that by (simp add: q val spec_value_Cons r)
  qed
  have B: "\<not> MatchString quotedConfigLine line \<and> line_val line = u"
    if none: "\<nexists>q1 v q2 ws4.
         u = q1 # v @ q2 # ws4 \<and> is_quote q1 \<and> is_quote q2 \<and> list_all is_space ws4"
  proof (cases u)
    case Nil
    then show ?thesis by (simp add: q val)
  next
    case (Cons q' v')
    have nq: "\<not> (is_quote q' \<and> rstrip v' \<noteq> [] \<and> is_quote (last (rstrip v')))"
    proof
      assume a: "is_quote q' \<and> rstrip v' \<noteq> [] \<and> is_quote (last (rstrip v'))"
      obtain ws where v': "v' = rstrip v' @ ws" and ws: "list_all is_space ws"
        using rstrip_decomp by blast
      have "rstrip v' = butlast (rstrip v') @ [last (rstrip v')]" using a by simp
      then have "u = q' # butlast (rstrip v') @ last (rstrip v') # ws"
        using Cons v' by (metis append_Cons append_Nil append.assoc)
      then show False using none a ws by blast
    qed
    have "\<not> is_space q'" using assms(8) Cons by simp
    then show ?thesis using nq by (auto simp: q val Cons spec_value_Cons)
  qed
  show ?thesis using kv(1) kv(2) sh(1) A B by blast
qed

theorem quoted_value_fallback_witness:
  "line_val (''k = '' @ [CHR 0x22] @ ''abc'') = CHR 0x22 # ''abc'' \<and>
   \<not> MatchString quotedConfigLine (''k = '' @ [CHR 0x22] @ ''abc'') \<and>
   MatchString quotedConfigLine (''k = '' @ [CHR 0x22] @ ''abc'' @ [CHR 0x22]) \<and>
   line_val (''k = '' @ [CHR 0x22] @ ''abc'' @ [CHR 0x22]) = ''abc''"
proof -
  let ?open = "''k = '' @ [CHR 0x22] @ ''abc''"
  let ?both = "''k = '' @ [CHR 0x22] @ ''abc'' @ [CHR 0x22]"
  have 1: "?open \<in> set (scanner_lines ?open)"
    by (simp add: scanner_lines_def MaxScanTokenSize_def dropCR_def)
  have 2: "?both \<in> set (scanner_lines ?both)"
    by (simp add: scanner_lines_def MaxScanTokenSize_def dropCR_def)
  have e1: "?open = [] @ ''k'' @ '' '' @ CHR ''='' # '' '' @ (CHR 0x22 # ''abc'')"
    by simp
  have e2: "?both = [] @ ''k'' @ '' '' @ CHR ''='' # '' '' @ (CHR 0x22 # ''abc'' @ [CHR 0x22])"
    by simp
  have sp: "list_all is_space '' ''" "list_all is_space []" "list_all is_word ''k''" "''k'' \<noteq> []"
    by (simp_all add: is_space_def is_word_def)
  have h1: "CHR 0x22 # ''abc'' = [] \<or> \<not> is_space (hd (CHR 0x22 # ''abc''))"
    by (simp add: is_space_def)
  have h2: "CHR 0x22 # ''abc'' @ [CHR 0x22] = [] \<or> \<not> is_space (hd (CHR 0x22 # ''abc'' @ [CHR 0x22]))"
    by (simp add: is_space_def)
  have nq: "\<nexists>q1 v q2 ws4. CHR 0x22 # ''abc'' = q1 # v @ q2 # ws4 \<and> is_quote q1 \<and> is_quote q2 \<and>
      list_all is_space ws4"
    by (auto simp: Cons_eq_append_conv is_quote_def)
  have qt: "is_quote (CHR 0x22)" by (simp add: is_quote_def)
  have a: "\<not> MatchString quotedConfigLine ?open \<and> line_val ?open = CHR 0x22 # ''abc''"
    using quoted_value_fallback [OF 1 e1 sp(2) sp(4) sp(3) sp(1) sp(1) h1] nq by blast
  have "CHR 0x22 # ''abc'' @ [CHR 0x22] = CHR 0x22 # ''abc'' @ CHR 0x22 # [] \<and>
      is_quote (CHR 0x22) \<and> is_quote (CHR 0x22) \<and> list_all is_space []"
    using qt by simp
  then have b: "MatchString quotedConfigLine ?both \<and> line_val ?both = ''abc''"
    using quoted_value_fallback [OF 2 e2 sp(2) sp(4) sp(3) sp(1) sp(1) h2] by blast
  show ?thesis using a b by blast
qed

text \<open>
  The value \<open>"abc'\<close> opens with a double and closes with a single quote: the quoted
  pattern applies all the same, and the value is \<open>abc\<close>.
\<close>

theorem mismatched_quotes_counterexample:
  "MatchString quotedConfigLine (''k = '' @ [CHR 0x22] @ ''abc'' @ [CHR 0x27]) \<and>
   line_val (''k = '' @ [CHR 0x22] @ ''abc'' @ [CHR 0x27]) = ''abc'' \<and>
   CHR 0x22 \<noteq> CHR 0x27"
  by code_simp

text \<open>
  Claim C5, as amended. Every line the scanner delivers is handled as its class in the
  second description says, the classes tried in this order: a comment (the first
  character of the line is \<open>#\<close>; leading white space is not trimmed) and a blank line
  are skipped, a section header makes its section the current one and adds it to the map
  when it is new, a key/value line stores its value under its key in the current section
  (the section \<open>default\<close> when there is none yet), and on any other line parsing stops
  with the error \<open>invalid config file\<close>. In particular a line whose first character is
  \<open>#\<close> is skipped.
\<close>

theorem line_classification:
  assumes "line \<in> set (scanner_lines text)"
  shows "parse_lines cfg currentSection (line # rest) =
     (case spec_classify line of
        Comment \<Rightarrow> parse_lines cfg currentSection rest
      | Blank \<Rightarrow> parse_lines cfg currentSection rest
      | Section name \<Rightarrow>
          parse_lines (if SectionInConfig cfg name then cfg else AList.update name Map.empty cfg)
            name rest
      | KeyValue key val \<Rightarrow>
          (let current1 = (if currentSection = [] then defaultSection else currentSection);
               cfg1 = (if currentSection = [] \<and> \<not> SectionInConfig cfg current1
                       then AList.update current1 Map.empty cfg else cfg)
           in case map_of cfg1 current1 of
                None \<Rightarrow> Panics ''assignment to entry in nil map''
              | Some entries \<Rightarrow>
                  parse_lines (AList.update current1 (entries(key \<mapsto> val)) cfg1) current1 rest)
      | Malformed \<Rightarrow> Returns (cfg, Some (FmtErrorf ''invalid config file''))) \<and>
     (line \<noteq> [] \<and> hd line = CHR ''#'' \<longrightarrow>
        parse_lines cfg currentSection (line # rest) = parse_lines cfg currentSection rest)"
proof -
  have nl: "CHR 0x0A \<notin> set line" using assms by (rule scanner_lines_no_newline)
  note c = classify_line [OF nl, of cfg currentSection rest]
  have "spec_classify line = Comment" if "line \<noteq> [] \<and> hd line = CHR ''#''"
    using that by (simp add: spec_classify_def)
  then show ?thesis using c by auto
qed

lemma ex_classes:
  "spec_classify ''# roots of the CA'' = Comment \<and>
   spec_classify [CHR 0x20, CHR 0x09] = Blank \<and>
   spec_classify '' [ primary ] '' = Section ''primary'' \<and>
   spec_classify ''nets = 10.0.0.0/8, 192.168.1.0/24'' = KeyValue ''nets'' ''10.0.0.0/8, 192.168.1.0/24'' \<and>
   spec_classify ''  # an indented comment'' = Malformed"
  by code_simp

theorem line_classification_witness:
  "parse_lines [] [] [''# roots of the CA''] = Returns ([], None) \<and>
   parse_lines [] [] [[CHR 0x20, CHR 0x09]] = Returns ([], None) \<and>
   parse_lines [] [] ['' [ primary ] ''] = Returns ([(''primary'', Map.empty)], None) \<and>
   parse_lines [] [] [''nets = 10.0.0.0/8, 192.168.1.0/24'']
     = Returns ([(''default'', [''nets'' \<mapsto> ''10.0.0.0/8, 192.168.1.0/24''])], None) \<and>
   parse_lines [] [] [''  # an indented comment'']
     = Returns ([], Some (FmtErrorf ''invalid config file''))"
proof -
  have m: "l \<in> set (scanner_lines l)"
    if "l \<noteq> []" "CHR 0x0A \<notin> set l" "last l \<noteq> CHR 0x0D" "length l < MaxScanTokenSize" for l
  proof -
    have "splitLines l = [l]" using that(1,2)
    proof (induction l)
      case Nil
      then show ?case by simp
    next
      case (Cons c cs)
      then show ?case by (cases cs) auto
    qed
    then show ?thesis using that by (simp add: scanner_lines_def dropCR_def)
  qed
  have 1: "''# roots of the CA'' \<in> set (scanner_lines ''# roots of the CA'')"
    by (rule m) (simp_all add: MaxScanTokenSize_def)
  have 2: "[CHR 0x20, CHR 0x09] \<in> set (scanner_lines [CHR 0x20, CHR 0x09])"
    by (rule m) (simp_all add: MaxScanTokenSize_def)
  have 3: "'' [ primary ] '' \<in> set (scanner_lines '' [ primary ] '')"
    by (rule m) (simp_all add: MaxScanTokenSize_def)
  have 4: "''nets = 10.0.0.0/8, 192.168.1.0/24'' \<in> set (scanner_lines ''nets = 10.0.0.0/8, 192.168.1.0/24'')"
    by (rule m) (simp_all add: MaxScanTokenSize_def)
  have 5: "''  # an indented comment'' \<in> set (scanner_lines ''  # an indented comment'')"
    by (rule m) (simp_all add: MaxScanTokenSize_def)
  show ?thesis
    using line_classification [OF 1, of "[]" "[]" "[]"] line_classification [OF 2, of "[]" "[]" "[]"]
      line_classification [OF 3, of "[]" "[]" "[]"] line_classification [OF 4, of "[]" "[]" "[]"]
      line_classification [OF 5, of "[]" "[]" "[]"]
    by (simp add: ex_classes SectionInConfig_def defaultSection_def)
qed

lemma ex_indented:
  "MatchString commentLine ''  # an indented comment'' = False \<and>
   MatchString blankLine ''  # an indented comment'' = False \<and>
   MatchString configSection ''  # an indented comment'' = False \<and>
   MatchString configLine ''  # an indented comment'' = False \<and>
   hd (dropWhile is_space ''  # an indented comment'') = CHR ''#''"
  by code_simp

text \<open>
  A line whose first character after the leading white space is \<open>#\<close> is no comment:
  a file with the one line \<open>  # an indented comment\<close> fails to parse.
\<close>

theorem indented_comment_counterexample:
  "hd (dropWhile is_space ''  # an indented comment'') = CHR ''#'' \<and>
   ParseToRawMap example_env ''/etc/indented.conf''
     = Returns ([], Some (FmtErrorf ''invalid config file''))"
proof -
  have "scanner_lines (''  # an indented comment'' @ [CHR 0x0A]) = [''  # an indented comment'']"
    by (simp add: scanner_lines_def MaxScanTokenSize_def dropCR_def)
  then have "ParseToRawMap example_env ''/etc/indented.conf''
      = parse_lines [] [] [''  # an indented comment'']"
    by (simp add: ParseToRawMap_def example_env_def example_files_def del: append.simps)
  then have a: "ParseToRawMap example_env ''/etc/indented.conf''
      = Returns ([], Some (FmtErrorf ''invalid config file''))"
    by (simp add: ex_indented)
  have b: "hd (dropWhile is_space ''  # an indented comment'') = CHR ''#''"
    using ex_indented by blast
  show ?thesis using a b by blast
qed

end
